theory Spec2Isabelle
  imports Complex_Main "HOL-Library.Word"
begin

section \<open>Python strings and integer formatting\<close>

text \<open>
  The converter \<^verbatim>\<open>netcdf_to_sp2.py\<close> writes a text file through Python format
  specifications. This section models the pieces of Python's string library that the
  source uses: \<^verbatim>\<open>str(int)\<close>, right justification to a minimum field width (the
  \<^verbatim>\<open>6d\<close> of \<^verbatim>\<open>f"{val:6d}"\<close>), \<^verbatim>\<open>str.join\<close>, \<^verbatim>\<open>str.replace\<close> of a
  single character by the empty string and \<^verbatim>\<open>str.split\<close> on a separator.
\<close>

definition NL :: string where
  "NL = [CHR 0x0A]"

definition digit_char :: "nat \<Rightarrow> char" where
  "digit_char d = ''0123456789'' ! d"

function str_nat :: "nat \<Rightarrow> string" where
  "str_nat n = (if n < 10 then [digit_char n] else str_nat (n div 10) @ [digit_char (n mod 10)])"
  by pat_completeness auto
termination
  by (relation "measure id") auto

declare str_nat.simps [simp del]

definition str_int :: "int \<Rightarrow> string" where
  "str_int i = (if i < 0 then CHR ''-'' # str_nat (nat (- i)) else str_nat (nat i))"

definition rjust :: "nat \<Rightarrow> string \<Rightarrow> string" where
  "rjust w s = replicate (w - length s) CHR '' '' @ s"

definition zfill :: "nat \<Rightarrow> string \<Rightarrow> string" where
  "zfill w s = replicate (w - length s) CHR ''0'' @ s"

text \<open>\<^verbatim>\<open>f"{i:Wd}"\<close>: the decimal digits of \<open>i\<close>, a minus sign when negative, padded with
  spaces on the left up to the minimum width \<open>W\<close>; a longer number is never cut.\<close>

definition fmt_d :: "nat \<Rightarrow> int \<Rightarrow> string" where
  "fmt_d w i = rjust w (str_int i)"

fun join :: "string \<Rightarrow> string list \<Rightarrow> string" where
  "join sep [] = []"
| "join sep [x] = x"
| "join sep (x # y # ys) = x @ sep @ join sep (y # ys)"

definition replace_char :: "char \<Rightarrow> string \<Rightarrow> string" where
  "replace_char c s = filter (\<lambda>x. x \<noteq> c) s"

fun split_char :: "char \<Rightarrow> string \<Rightarrow> string list" where
  "split_char c [] = [[]]"
| "split_char c (x # xs) =
     (if x = c then [] # split_char c xs
      else (case split_char c xs of [] \<Rightarrow> [[x]] | p # ps \<Rightarrow> (x # p) # ps))"

section \<open>Floating-point samples and their conversion to integers\<close>

text \<open>
  A sample of a NumPy float array is NaN, an infinity, negative zero or a finite value.
  The finite values of a binary float are rationals, so \<open>Fin x\<close> carries the exact value
  (\<open>Fin 0\<close> is positive zero). Every operation below is exact on that value, as the IEEE
  operations it models are: replacing NaN, rounding to an integral value and the cast.
\<close>

datatype float64 = NaN | PInf | NInf | NZero | Fin rat

definition DBL_MAX :: rat where
  "DBL_MAX = (2 ^ 53 - 1) * 2 ^ 971"

text \<open>\<^verbatim>\<open>np.nan_to_num(row, nan=v)\<close>: NaN becomes \<open>v\<close>, the infinities become the largest
  finite floats (the defaults of \<^verbatim>\<open>posinf\<close> and \<^verbatim>\<open>neginf\<close>).\<close>

fun nan_to_num1 :: "float64 \<Rightarrow> float64 \<Rightarrow> float64" where
  "nan_to_num1 nan NaN = nan"
| "nan_to_num1 nan PInf = Fin DBL_MAX"
| "nan_to_num1 nan NInf = Fin (- DBL_MAX)"
| "nan_to_num1 nan v = v"

definition nan_to_num :: "float64 list \<Rightarrow> float64 \<Rightarrow> float64 list" where
  "nan_to_num row nan = map (nan_to_num1 nan) row"

text \<open>Rounding a rational to the nearest integer, a tie going to the even neighbour.\<close>

definition round_half_even :: "rat \<Rightarrow> int" where
  "round_half_even x =
     (let f = \<lfloor>x\<rfloor>; d = x - of_int f
      in if d < 1 / 2 then f else if 1 / 2 < d then f + 1 else if even f then f else f + 1)"

text \<open>\<^verbatim>\<open>np.round\<close> (zero decimals) keeps the float type: the result is an integral float,
  negative zero when a negative value rounds to zero; NaN and infinities pass through.\<close>

fun np_round1 :: "float64 \<Rightarrow> float64" where
  "np_round1 (Fin x) =
     (let n = round_half_even x in if n = 0 \<and> x < 0 then NZero else Fin (of_int n))"
| "np_round1 v = v"

definition np_round :: "float64 list \<Rightarrow> float64 list" where
  "np_round row = map np_round1 row"

text \<open>
  \<^verbatim>\<open>.astype(int)\<close> casts to NumPy's default integer, a signed 64-bit integer: the value
  is truncated towards zero. A value outside the 64-bit range (or NaN, or an infinity)
  has no defined result in C; what the processor gives is the parameter \<open>oor\<close>.
\<close>

definition trunc_rat :: "rat \<Rightarrow> int" where
  "trunc_rat x = (if x < 0 then \<lceil>x\<rceil> else \<lfloor>x\<rfloor>)"

fun astype_int1 :: "(float64 \<Rightarrow> 64 word) \<Rightarrow> float64 \<Rightarrow> 64 word" where
  "astype_int1 oor (Fin x) =
     (let t = trunc_rat x
      in if - (2 ^ 63) \<le> t \<and> t < 2 ^ 63 then word_of_int t else oor (Fin x))"
| "astype_int1 oor NZero = 0"
| "astype_int1 oor v = oor v"

definition astype_int :: "(float64 \<Rightarrow> 64 word) \<Rightarrow> float64 list \<Rightarrow> 64 word list" where
  "astype_int oor row = map (astype_int1 oor) row"

text \<open>On x86-64 the conversion instruction answers every invalid cast with the
  ``integer indefinite'' value \<open>- 2 ^ 63\<close>.\<close>

definition oor_x86 :: "float64 \<Rightarrow> 64 word" where
  "oor_x86 v = word_of_int (- (2 ^ 63))"

text \<open>
  The innermost loop body of \<^verbatim>\<open>convert_netcdf_to_sp2\<close> (source lines 169 to 173):
  \<^verbatim>\<open>
  row_ints = np.nan_to_num(row, nan=0.0)
  row_ints = np.round(row_ints).astype(int)
  row_str = " ".join(f"{val:6d}" for val in row_ints)
  f.write(row_str + "\n")
  \<close>
\<close>

definition row_ints :: "(float64 \<Rightarrow> 64 word) \<Rightarrow> float64 list \<Rightarrow> 64 word list" where
  "row_ints oor row = astype_int oor (np_round (nan_to_num row (Fin 0)))"

definition row_str :: "(float64 \<Rightarrow> 64 word) \<Rightarrow> float64 list \<Rightarrow> string" where
  "row_str oor row = join '' '' (map (\<lambda>val. fmt_d 6 (sint val)) (row_ints oor row))"

definition row_line :: "(float64 \<Rightarrow> 64 word) \<Rightarrow> float64 list \<Rightarrow> string" where
  "row_line oor row = row_str oor row @ NL"

section \<open>Floating-point formatting\<close>

text \<open>
  Python formats a float from its exact value, correctly rounded with ties to even.
  \<open>fixed_digits p x\<close> are the digits of the magnitude \<open>x\<close> with \<open>p\<close> decimals;
  \<open>fmt_f w p\<close> is the format specification \<^verbatim>\<open>w.pf\<close>.
\<close>

definition fixed_digits :: "nat \<Rightarrow> rat \<Rightarrow> string" where
  "fixed_digits p x =
     (let n = nat (round_half_even (x * 10 ^ p))
      in str_nat (n div 10 ^ p) @
         (if p = 0 then [] else CHR ''.'' # zfill p (str_nat (n mod 10 ^ p))))"

fun fmt_f :: "nat \<Rightarrow> nat \<Rightarrow> float64 \<Rightarrow> string" where
  "fmt_f w p NaN = rjust w ''nan''"
| "fmt_f w p PInf = rjust w ''inf''"
| "fmt_f w p NInf = rjust w ''-inf''"
| "fmt_f w p NZero = rjust w (CHR ''-'' # fixed_digits p 0)"
| "fmt_f w p (Fin x) = rjust w ((if x < 0 then ''-'' else []) @ fixed_digits p \<bar>x\<bar>)"

text \<open>
  Scientific notation. For \<open>1 \<le> x\<close>, \<open>exp_up x 0\<close> is the decimal exponent of \<open>x\<close>;
  for \<open>0 < x < 1\<close> the exponent is \<open>- exp_down x 0\<close>. The mantissa is rounded to \<open>p\<close>
  decimals, and a mantissa that rounds up to ten moves to the next exponent.
\<close>

function exp_up :: "rat \<Rightarrow> nat \<Rightarrow> nat" where
  "exp_up x n = (if 10 ^ (n + 1) \<le> x then exp_up x (n + 1) else n)"
  by pat_completeness auto
termination
proof (relation "measure (\<lambda>(x, n). nat \<lfloor>x\<rfloor> - n)")
  show "wf (measure (\<lambda>(x, n). nat \<lfloor>x\<rfloor> - n))" by simp
next
  fix x :: rat and n :: nat
  assume a: "10 ^ (n + 1) \<le> x"
  have "n < 10 ^ (n + 1)" for n :: nat
    by (induction n) auto
  then have "int n < 10 ^ (n + 1)"
    by (metis of_nat_less_iff of_nat_numeral of_nat_power)
  moreover from a have "(10::int) ^ (n + 1) \<le> \<lfloor>x\<rfloor>"
    by (simp add: le_floor_iff)
  ultimately have "n < nat \<lfloor>x\<rfloor>" by linarith
  then show "((x, n + 1), (x, n)) \<in> measure (\<lambda>(x, n). nat \<lfloor>x\<rfloor> - n)"
    by simp
qed

function exp_down :: "rat \<Rightarrow> nat \<Rightarrow> nat" where
  "exp_down x n = (if 0 < x \<and> x * 10 ^ n < 1 then exp_down x (n + 1) else n)"
  by pat_completeness auto
termination
proof (relation "measure (\<lambda>(x, n). nat \<lceil>1 / x\<rceil> - n)")
  show "wf (measure (\<lambda>(x, n). nat \<lceil>1 / x\<rceil> - n))" by simp
next
  fix x :: rat and n :: nat
  assume a: "0 < x \<and> x * 10 ^ n < 1"
  have "n < 10 ^ n" for n :: nat
    by (induction n) auto
  then have "int n < 10 ^ n"
    by (metis of_nat_less_iff of_nat_numeral of_nat_power)
  moreover from a have "10 ^ n < 1 / x"
    by (simp add: pos_less_divide_eq mult.commute)
  then have "(10::int) ^ n < \<lceil>1 / x\<rceil>"
    by (simp add: less_ceiling_iff)
  ultimately have "n < nat \<lceil>1 / x\<rceil>" by linarith
  then show "((x, n + 1), (x, n)) \<in> measure (\<lambda>(x, n). nat \<lceil>1 / x\<rceil> - n)"
    by simp
qed

declare exp_up.simps [simp del] exp_down.simps [simp del]

definition sci_exponent :: "rat \<Rightarrow> int" where
  "sci_exponent x = (if 1 \<le> x then int (exp_up x 0) else - int (exp_down x 0))"

definition scale10 :: "rat \<Rightarrow> int \<Rightarrow> rat" where
  "scale10 x e = (if 0 \<le> e then x / 10 ^ nat e else x * 10 ^ nat (- e))"

definition sci_round :: "nat \<Rightarrow> rat \<Rightarrow> nat \<times> int" where
  "sci_round p x =
     (if x = 0 then (0, 0)
      else let e = sci_exponent x; m = nat (round_half_even (scale10 x e * 10 ^ p))
           in if m = 10 ^ (p + 1) then (10 ^ p, e + 1) else (m, e))"

definition exp_str :: "int \<Rightarrow> string" where
  "exp_str e = (if e < 0 then CHR ''-'' else CHR ''+'') # zfill 2 (str_nat (nat \<bar>e\<bar>))"

definition sci_digits :: "nat \<Rightarrow> rat \<Rightarrow> string" where
  "sci_digits p x =
     (case sci_round p x of (m, e) \<Rightarrow>
        str_nat (m div 10 ^ p) @
        (if p = 0 then [] else CHR ''.'' # zfill p (str_nat (m mod 10 ^ p))) @
        CHR ''e'' # exp_str e)"

fun fmt_e :: "nat \<Rightarrow> nat \<Rightarrow> float64 \<Rightarrow> string" where
  "fmt_e w p NaN = rjust w ''nan''"
| "fmt_e w p PInf = rjust w ''inf''"
| "fmt_e w p NInf = rjust w ''-inf''"
| "fmt_e w p NZero = rjust w (CHR ''-'' # sci_digits p 0)"
| "fmt_e w p (Fin x) = rjust w ((if x < 0 then ''-'' else []) @ sci_digits p \<bar>x\<bar>)"

section \<open>Timestamps\<close>

text \<open>
  A \<^verbatim>\<open>numpy.datetime64\<close> is ``not a time'' or a point in time; NumPy prints it from its
  calendar fields. \<^verbatim>\<open>np.datetime_as_string(t, unit="s")\<close> prints the fields down to the
  second as \<^verbatim>\<open>YYYY-MM-DDTHH:MM:SS\<close> (the year with C's \<^verbatim>\<open>%04d\<close>) and leaves out
  whatever the value holds below one second.
\<close>

datatype datetime64 = NaT
  | DateTime (year: int) (month: nat) (day: nat) (hour: nat) (minute: nat) (second: nat)
      (nanosecond: nat)

definition c_fmt_04d :: "int \<Rightarrow> string" where
  "c_fmt_04d i = (if i < 0 then CHR ''-'' # zfill 3 (str_nat (nat (- i))) else zfill 4 (str_nat (nat i)))"

definition two_digits :: "nat \<Rightarrow> string" where
  "two_digits n = zfill 2 (str_nat n)"

fun datetime_as_string_s :: "datetime64 \<Rightarrow> string" where
  "datetime_as_string_s NaT = ''NaT''"
| "datetime_as_string_s (DateTime y mo d h mi s ns) =
     c_fmt_04d y @ ''-'' @ two_digits mo @ ''-'' @ two_digits d @ ''T'' @
     two_digits h @ '':'' @ two_digits mi @ '':'' @ two_digits s"

section \<open>Exceptions and the output sink\<close>

text \<open>
  Each exception carries the text that \<^verbatim>\<open>str(e)\<close> gives. A computation that writes to
  the open file is a pair: the text written so far, and either the exception that stopped
  it or its result. \<open>wr_bind\<close> runs a second computation after a first one that did not
  raise; \<open>seqs\<close> runs a list of statements, and a \<^verbatim>\<open>for\<close> loop is \<open>seqs\<close> of its
  body mapped over the range.
\<close>

datatype exn = AttributeError string | IndexError string | ValueError string | OSError string

fun exn_str :: "exn \<Rightarrow> string" where
  "exn_str (AttributeError m) = m"
| "exn_str (IndexError m) = m"
| "exn_str (ValueError m) = m"
| "exn_str (OSError m) = m"

type_synonym 'a wr = "string \<times> (exn + 'a)"

definition f_write :: "string \<Rightarrow> unit wr" where
  "f_write s = (s, Inr ())"

definition lift :: "exn + 'a \<Rightarrow> 'a wr" where
  "lift r = ([], r)"

definition wr_bind :: "'a wr \<Rightarrow> ('a \<Rightarrow> 'b wr) \<Rightarrow> 'b wr" where
  "wr_bind m f =
     (case snd m of
        Inl e \<Rightarrow> (fst m, Inl e)
      | Inr a \<Rightarrow> (fst m @ fst (f a), snd (f a)))"

fun seqs :: "unit wr list \<Rightarrow> unit wr" where
  "seqs [] = ([], Inr ())"
| "seqs (m # ms) = wr_bind m (\<lambda>_. seqs ms)"

text \<open>Reading a variable of the dataset (\<^verbatim>\<open>ds.name\<close>) and indexing a NumPy array along
  one axis; both raise where the variable or the index does not exist.\<close>

definition quoted :: "string \<Rightarrow> string" where
  "quoted s = CHR 0x27 # s @ [CHR 0x27]"

definition attr :: "string \<Rightarrow> 'a option \<Rightarrow> exn + 'a" where
  "attr name v =
     (case v of
        None \<Rightarrow> Inl (AttributeError (quoted ''Dataset'' @ '' object has no attribute '' @ quoted name))
      | Some x \<Rightarrow> Inr x)"

definition np_index :: "nat \<Rightarrow> 'a list \<Rightarrow> nat \<Rightarrow> exn + 'a" where
  "np_index axis xs i =
     (if i < length xs then Inr (xs ! i)
      else Inl (IndexError (''index '' @ str_nat i @ '' is out of bounds for axis '' @
                  str_nat axis @ '' with size '' @ str_nat (length xs))))"

text \<open>
  \<^verbatim>\<open>format_swan_time\<close> (source lines 71 to 83):
  \<^verbatim>\<open>
  dt = np.datetime_as_string(nptime, unit="s")
  date, time = dt.split("T")
  return f"{date.replace('-', '')}.{time.replace(':', '')}"
  \<close>
  The tuple assignment raises unless the split gives exactly two parts.
\<close>

definition format_swan_time :: "datetime64 \<Rightarrow> exn + string" where
  "format_swan_time nptime =
     (let dt = datetime_as_string_s nptime
      in case split_char CHR ''T'' dt of
           [date, time] \<Rightarrow> Inr (replace_char CHR ''-'' date @ ''.'' @ replace_char CHR '':'' time)
         | [_] \<Rightarrow> Inl (ValueError ''not enough values to unpack (expected 2, got 1)'')
         | _ \<Rightarrow> Inl (ValueError ''too many values to unpack (expected 2)''))"

section \<open>Configuration and dataset\<close>

record config =
  input_dir :: string
  output_dir :: string
  log_file :: string
  exception_value :: float64
  swan_version :: string
  project_name :: string
  run_number :: string
  overwrite :: bool

text \<open>POSIX \<^verbatim>\<open>os.path.join\<close> of two components.\<close>

definition path_join :: "string \<Rightarrow> string \<Rightarrow> string" where
  "path_join a b =
     (if b \<noteq> [] \<and> hd b = CHR ''/'' then b
      else if a = [] \<or> last a = CHR ''/'' then a @ b
      else a @ ''/'' @ b)"

text \<open>The module-level \<^verbatim>\<open>CONFIG\<close> dictionary; \<open>cwd\<close> is what \<^verbatim>\<open>os.getcwd()\<close> returns.\<close>

definition CONFIG :: "string \<Rightarrow> config" where
  "CONFIG cwd =
     \<lparr>input_dir = cwd,
      output_dir = path_join cwd ''converted_sp2_files'',
      log_file = ''conversion_log.txt'',
      exception_value = Fin (- 99),
      swan_version = ''41.41'',
      project_name = ''WaveDataProject'',
      run_number = ''1.0'',
      overwrite = False\<rparr>"

text \<open>
  The opened dataset. A variable that the file does not hold is \<open>None\<close>. The coordinate
  variables are one-dimensional, the energy density has four axes
  (time, point, frequency, direction) and the optional factor has two (time, point).
\<close>

record dataset =
  longitude :: "float64 list option"
  latitude :: "float64 list option"
  frequency :: "float64 list option"
  direction :: "float64 list option"
  energy_density :: "float64 list list list list option"
  time :: "datetime64 list option"
  factor :: "float64 list list option"

definition variables :: "dataset \<Rightarrow> string list" where
  "variables ds =
     (if longitude ds = None then [] else [''longitude'']) @
     (if latitude ds = None then [] else [''latitude'']) @
     (if frequency ds = None then [] else [''frequency'']) @
     (if direction ds = None then [] else [''direction'']) @
     (if energy_density ds = None then [] else [''energy_density'']) @
     (if time ds = None then [] else [''time'']) @
     (if factor ds = None then [] else [''factor''])"

datatype level = INFO | WARNING | ERROR

type_synonym log_entry = "level \<times> string"

text \<open>
  \<^verbatim>\<open>validate_netcdf\<close> (source lines 53 to 69): the first required variable that is
  missing is logged as an error and the answer is \<open>False\<close>. The model returns the answer
  and the log entries written.
\<close>

definition required_vars :: "string list" where
  "required_vars = [''longitude'', ''latitude'', ''frequency'', ''direction'',
                    ''energy_density'', ''time'']"

fun validate_vars :: "string list \<Rightarrow> dataset \<Rightarrow> bool \<times> log_entry list" where
  "validate_vars [] ds = (True, [])"
| "validate_vars (var # vars) ds =
     (if var \<notin> set (variables ds) then (False, [(ERROR, ''Missing required variable: '' @ var)])
      else validate_vars vars ds)"

definition validate_netcdf :: "dataset \<Rightarrow> bool \<times> log_entry list" where
  "validate_netcdf ds = validate_vars required_vars ds"

section \<open>The SP2 encoder\<close>

text \<open>\<^verbatim>\<open>write_sp2_header\<close> (source lines 85 to 128); \<open>cfg\<close> is the global \<^verbatim>\<open>CONFIG\<close>.\<close>

definition write_sp2_header :: "config \<Rightarrow> dataset \<Rightarrow> nat \<Rightarrow> unit wr" where
  "write_sp2_header cfg ds nloc = seqs
     [f_write (''SWAN   1                                Swan standard spectral file, version'' @ NL),
      f_write (''$   Data produced by SWAN version '' @ swan_version cfg @ NL),
      f_write (''$   Project: '' @ project_name cfg @ ''        ;  run number: '' @ run_number cfg @ NL),
      f_write (''TIME                                    time-dependent data'' @ NL),
      f_write (''     1                                  time coding option'' @ NL),
      f_write (''LONLAT                                  locations in spherical coordinates'' @ NL),
      f_write (fmt_d 6 (int nloc) @ ''                                  number of locations'' @ NL),
      wr_bind (lift (attr ''longitude'' (longitude ds))) (\<lambda>lons.
      wr_bind (lift (attr ''latitude'' (latitude ds))) (\<lambda>lats.
        seqs (map (\<lambda>(lon, lat). f_write (fmt_f 10 4 lon @ '' '' @ fmt_f 10 4 lat @ NL))
                  (zip lons lats)))),
      f_write (''AFREQ                                   absolute frequencies in Hz'' @ NL),
      wr_bind (lift (attr ''frequency'' (frequency ds))) (\<lambda>frs.
        f_write (fmt_d 6 (int (length frs)) @ ''                                  number of frequencies'' @ NL)),
      wr_bind (lift (attr ''frequency'' (frequency ds))) (\<lambda>frs.
        seqs (map (\<lambda>fr. f_write (fmt_f 10 4 fr @ NL)) frs)),
      f_write (''NDIR                                    spectral nautical directions in degr'' @ NL),
      wr_bind (lift (attr ''direction'' (direction ds))) (\<lambda>drs.
        f_write (fmt_d 6 (int (length drs)) @ ''                                  number of directions'' @ NL)),
      wr_bind (lift (attr ''direction'' (direction ds))) (\<lambda>drs.
        seqs (map (\<lambda>d. f_write (fmt_f 10 4 d @ NL)) drs)),
      f_write (''QUANT'' @ NL),
      f_write (''     1                                  number of quantities in table'' @ NL),
      f_write (''EnDens                                  energy densities in J/m2/Hz/degr'' @ NL),
      f_write (''J/m2/Hz/degr                            unit'' @ NL),
      f_write (fmt_e 10 4 (exception_value cfg) @ ''                          exception value'' @ NL)]"

text \<open>\<^verbatim>\<open>energy[t_idx, p_idx, fr_idx, :]\<close> and \<^verbatim>\<open>factors[t_idx, p_idx]\<close>.\<close>

definition energy_row :: "float64 list list list list \<Rightarrow> nat \<Rightarrow> nat \<Rightarrow> nat \<Rightarrow> exn + float64 list" where
  "energy_row energy t_idx p_idx fr_idx =
     (case np_index 0 energy t_idx of
        Inl e \<Rightarrow> Inl e
      | Inr a \<Rightarrow>
          (case np_index 1 a p_idx of
             Inl e \<Rightarrow> Inl e
           | Inr b \<Rightarrow> np_index 2 b fr_idx))"

definition factor_at :: "float64 list list \<Rightarrow> nat \<Rightarrow> nat \<Rightarrow> exn + float64" where
  "factor_at factors t_idx p_idx =
     (case np_index 0 factors t_idx of
        Inl e \<Rightarrow> Inl e
      | Inr a \<Rightarrow> np_index 1 a p_idx)"

text \<open>The body of the loop over \<^verbatim>\<open>fr_idx\<close> (source lines 169 to 173).\<close>

definition write_row ::
  "(float64 \<Rightarrow> 64 word) \<Rightarrow> float64 list list list list \<Rightarrow> nat \<Rightarrow> nat \<Rightarrow> nat \<Rightarrow> unit wr" where
  "write_row oor energy t_idx p_idx fr_idx =
     wr_bind (lift (energy_row energy t_idx p_idx fr_idx)) (\<lambda>row. f_write (row_line oor row))"

text \<open>The body of the loop over \<^verbatim>\<open>p_idx\<close> (source lines 164 to 173).\<close>

definition write_location ::
  "(float64 \<Rightarrow> 64 word) \<Rightarrow> dataset \<Rightarrow> float64 list list list list \<Rightarrow> float64 list list \<Rightarrow>
   nat \<Rightarrow> nat \<Rightarrow> unit wr" where
  "write_location oor ds energy factors t_idx p_idx = seqs
     [f_write (''FACTOR'' @ NL),
      wr_bind (lift (factor_at factors t_idx p_idx)) (\<lambda>v. f_write (fmt_e 0 16 v @ NL)),
      wr_bind (lift (attr ''frequency'' (frequency ds))) (\<lambda>frs.
        seqs (map (write_row oor energy t_idx p_idx) [0..<length frs]))]"

text \<open>The body of the loop over \<^verbatim>\<open>t_idx\<close> (source lines 159 to 173).\<close>

definition write_timestep ::
  "(float64 \<Rightarrow> 64 word) \<Rightarrow> dataset \<Rightarrow> float64 list list list list \<Rightarrow> float64 list list \<Rightarrow>
   nat \<Rightarrow> nat \<Rightarrow> unit wr" where
  "write_timestep oor ds energy factors nloc t_idx =
     wr_bind (lift (attr ''time'' (time ds))) (\<lambda>tms.
     wr_bind (lift (np_index 0 tms t_idx)) (\<lambda>nptime.
     wr_bind (lift (format_swan_time nptime)) (\<lambda>swan_time. seqs
       [f_write (swan_time @ ''                         date and time'' @ NL),
        seqs (map (write_location oor ds energy factors t_idx) [0..<nloc])])))"

text \<open>Everything written while the output file is open (source lines 153 to 173).\<close>

definition write_sp2 ::
  "(float64 \<Rightarrow> 64 word) \<Rightarrow> config \<Rightarrow> dataset \<Rightarrow> float64 list list list list \<Rightarrow>
   float64 list list \<Rightarrow> nat \<Rightarrow> unit wr" where
  "write_sp2 oor cfg ds energy factors nloc = seqs
     [write_sp2_header cfg ds nloc,
      wr_bind (lift (attr ''time'' (time ds))) (\<lambda>tms.
        seqs (map (write_timestep oor ds energy factors nloc) [0..<length tms]))]"

text \<open>
  ``Prepare data arrays'' (source lines 145 to 147): the energy array, the factor array
  (ones of shape time by point when the dataset has none) and the number of locations.
\<close>

definition prepare ::
  "dataset \<Rightarrow> exn + (float64 list list list list \<times> float64 list list \<times> nat)" where
  "prepare ds =
     (case attr ''energy_density'' (energy_density ds) of
        Inl e \<Rightarrow> Inl e
      | Inr energy \<Rightarrow>
          (case (if ''factor'' \<in> set (variables ds) then attr ''factor'' (factor ds)
                 else (case attr ''time'' (time ds) of
                         Inl e \<Rightarrow> Inl e
                       | Inr tms \<Rightarrow>
                           (case attr ''longitude'' (longitude ds) of
                              Inl e \<Rightarrow> Inl e
                            | Inr lons \<Rightarrow> Inr (replicate (length tms) (replicate (length lons) (Fin 1))))))
           of Inl e \<Rightarrow> Inl e
            | Inr factors \<Rightarrow>
                (case attr ''longitude'' (longitude ds) of
                   Inl e \<Rightarrow> Inl e
                 | Inr lons \<Rightarrow> Inr (energy, factors, length lons))))"

section \<open>The file system, the log and one conversion\<close>

text \<open>
  The world outside the program: the regular files with their contents, the directories,
  and the log that the \<^verbatim>\<open>logging\<close> module appends to. Paths are POSIX paths and are
  compared as strings; \<open>dirs\<close> holds every directory that exists, the root included when
  it is needed. The input files are not part of it: \<open>src\<close> below is what
  \<^verbatim>\<open>xr.open_dataset\<close> answers for a path, a dataset or an exception. Failures that
  come from outside this state (permissions, a full disk) are not modelled.
\<close>

record world =
  files :: "string \<rightharpoonup> string"
  dirs :: "string set"
  log :: "log_entry list"

definition logging :: "level \<Rightarrow> string \<Rightarrow> world \<Rightarrow> world" where
  "logging lv m w = w\<lparr>log := log w @ [(lv, m)]\<rparr>"

definition path_exists :: "string \<Rightarrow> world \<Rightarrow> bool" where
  "path_exists p w = (p \<in> dom (files w) \<or> p \<in> dirs w)"

text \<open>\<^verbatim>\<open>os.path.dirname\<close> and \<^verbatim>\<open>os.path.basename\<close>: the path is cut after its last slash;
  the directory part loses its trailing slashes unless it consists of slashes only.\<close>

definition dirname :: "string \<Rightarrow> string" where
  "dirname p =
     (let head = rev (dropWhile (\<lambda>c. c \<noteq> CHR ''/'') (rev p))
      in if head \<noteq> [] \<and> head \<noteq> replicate (length head) CHR ''/''
         then rev (dropWhile (\<lambda>c. c = CHR ''/'') (rev head)) else head)"

definition basename :: "string \<Rightarrow> string" where
  "basename p = rev (takeWhile (\<lambda>c. c \<noteq> CHR ''/'') (rev p))"

text \<open>The intermediate directories of a path: its prefixes that end before a slash.\<close>

definition ancestors :: "string \<Rightarrow> string list" where
  "ancestors d = map (\<lambda>i. take i d) (filter (\<lambda>i. d ! i = CHR ''/'') [1..<length d])"

text \<open>
  \<^verbatim>\<open>os.makedirs(d, exist_ok=True)\<close>: afterwards \<open>d\<close> and its intermediate directories
  exist. It raises for the empty path. Where a regular file stands in the place of an
  intermediate directory, the directory right below it cannot be made (``Not a
  directory'', naming that path); where \<open>d\<close> itself is a regular file the error is
  ``File exists''. \<open>below_file\<close> finds the first path of the chain whose parent is a
  regular file.
\<close>

fun below_file :: "(string \<Rightarrow> bool) \<Rightarrow> string list \<Rightarrow> string option" where
  "below_file is_file (a # b # ps) =
     (if is_file a then Some b else below_file is_file (b # ps))"
| "below_file is_file ps = None"

definition makedirs :: "string \<Rightarrow> world \<Rightarrow> exn + world" where
  "makedirs d w =
     (if d = [] then Inl (OSError (''[Errno 2] No such file or directory: '' @ quoted d))
      else (case below_file (\<lambda>p. p \<in> dom (files w)) (ancestors d @ [d]) of
              Some p \<Rightarrow> Inl (OSError (''[Errno 20] Not a directory: '' @ quoted p))
            | None \<Rightarrow>
                if d \<in> dom (files w)
                then Inl (OSError (''[Errno 17] File exists: '' @ quoted d))
                else Inr (w\<lparr>dirs := dirs w \<union> set (d # ancestors d)\<rparr>)))"

text \<open>
  \<^verbatim>\<open>open(p, 'w')\<close>: the file is created or truncated. The empty path cannot be
  opened. Where a regular file stands in the place of a directory of the path the error
  is ``Not a directory''; where the containing directory is missing it is ``No such file
  or directory''; a directory, or a path that ends in a slash, cannot be opened for
  writing (``Is a directory''). The containing directory of a path is taken without the
  path's trailing slashes.
\<close>

definition rstrip_slash :: "string \<Rightarrow> string" where
  "rstrip_slash p = rev (dropWhile (\<lambda>c. c = CHR ''/'') (rev p))"

definition open_w :: "string \<Rightarrow> world \<Rightarrow> exn + world" where
  "open_w p w =
     (if p = [] then Inl (OSError (''[Errno 2] No such file or directory: '' @ quoted p))
      else if \<exists>a \<in> set (ancestors p). a \<in> dom (files w)
      then Inl (OSError (''[Errno 20] Not a directory: '' @ quoted p))
      else if dirname (rstrip_slash p) \<noteq> [] \<and> dirname (rstrip_slash p) \<notin> dirs w
      then Inl (OSError (''[Errno 2] No such file or directory: '' @ quoted p))
      else if p \<in> dirs w \<or> last p = CHR ''/''
      then Inl (OSError (''[Errno 21] Is a directory: '' @ quoted p))
      else Inr (w\<lparr>files := (files w)(p \<mapsto> [])\<rparr>))"

text \<open>
  \<^verbatim>\<open>convert_netcdf_to_sp2\<close> (source lines 130 to 179). Every exception inside the
  \<^verbatim>\<open>try\<close> block is logged and turned into the answer \<open>False\<close>. When the exception comes
  while the output file is open, the file is closed with what was written before.
\<close>

definition log_failure :: "string \<Rightarrow> exn \<Rightarrow> world \<Rightarrow> world" where
  "log_failure input_path e w =
     logging ERROR (''Error processing '' @ basename input_path @ '': '' @ exn_str e) w"

definition convert_netcdf_to_sp2 ::
  "(float64 \<Rightarrow> 64 word) \<Rightarrow> config \<Rightarrow> (string \<Rightarrow> exn + dataset) \<Rightarrow> string \<Rightarrow> string \<Rightarrow>
   world \<Rightarrow> bool \<times> world" where
  "convert_netcdf_to_sp2 oor cfg src input_path output_path w =
     (case src input_path of
        Inl e \<Rightarrow> (False, log_failure input_path e w)
      | Inr ds \<Rightarrow>
          (case validate_netcdf ds of
             (False, msgs) \<Rightarrow> (False, w\<lparr>log := log w @ msgs\<rparr>)
           | (True, msgs) \<Rightarrow>
               (case prepare ds of
                  Inl e \<Rightarrow> (False, log_failure input_path e (w\<lparr>log := log w @ msgs\<rparr>))
                | Inr (energy, factors, nloc) \<Rightarrow>
                    (case makedirs (dirname output_path) (w\<lparr>log := log w @ msgs\<rparr>) of
                       Inl e \<Rightarrow> (False, log_failure input_path e (w\<lparr>log := log w @ msgs\<rparr>))
                     | Inr w1 \<Rightarrow>
                         (case open_w output_path w1 of
                            Inl e \<Rightarrow> (False, log_failure input_path e w1)
                          | Inr w2 \<Rightarrow>
                              (case write_sp2 oor cfg ds energy factors nloc of
                                 (text, r) \<Rightarrow>
                                   (let w3 = w2\<lparr>files := (files w2)(output_path \<mapsto> text)\<rparr>
                                    in case r of
                                         Inl e \<Rightarrow> (False, log_failure input_path e w3)
                                       | Inr _ \<Rightarrow> (True, w3))))))))"

section \<open>The batch loop\<close>

definition startswith :: "string \<Rightarrow> string \<Rightarrow> bool" where
  "startswith s pre = (take (length pre) s = pre)"

definition endswith :: "string \<Rightarrow> string \<Rightarrow> bool" where
  "endswith s suf = (length suf \<le> length s \<and> drop (length s - length suf) s = suf)"

text \<open>\<^verbatim>\<open>str.rfind\<close> of one character, and \<^verbatim>\<open>os.path.splitext\<close>: the extension starts
  at the last dot of the last component, leading dots of that component apart.\<close>

definition rfind :: "char \<Rightarrow> string \<Rightarrow> int" where
  "rfind c s =
     (if c \<in> set s then int (length s) - 1 - int (length (takeWhile (\<lambda>x. x \<noteq> c) (rev s)))
      else - 1)"

definition splitext :: "string \<Rightarrow> string \<times> string" where
  "splitext p =
     (let sepIndex = rfind CHR ''/'' p; dotIndex = rfind CHR ''.'' p
      in if sepIndex < dotIndex \<and>
            (\<exists>i \<in> set [nat (sepIndex + 1)..<nat dotIndex]. p ! i \<noteq> CHR ''.'')
         then (take (nat dotIndex) p, drop (nat dotIndex) p)
         else (p, []))"

text \<open>The selection of the input files (source lines 189 to 192) from the directory
  listing, and the body of the loop over them (source lines 203 to 217).\<close>

definition netcdf_files :: "string list \<Rightarrow> string list" where
  "netcdf_files listing = filter (\<lambda>f. startswith f ''esp_'' \<and> endswith f ''.nc'') listing"

definition process_file ::
  "(float64 \<Rightarrow> 64 word) \<Rightarrow> config \<Rightarrow> (string \<Rightarrow> exn + dataset) \<Rightarrow> string \<Rightarrow>
   nat \<times> world \<Rightarrow> nat \<times> world" where
  "process_file oor cfg src filename st =
     (case st of (success_count, w) \<Rightarrow>
        (let input_path = path_join (input_dir cfg) filename;
             output_path = path_join (output_dir cfg) (fst (splitext filename) @ ''.sp2'')
         in if \<not> overwrite cfg \<and> path_exists output_path w
            then (success_count, logging INFO (''Skipping existing file: '' @ filename) w)
            else (case convert_netcdf_to_sp2 oor cfg src input_path output_path w of
                    (True, w') \<Rightarrow>
                      (success_count + 1,
                       logging INFO (''Successfully converted: '' @ filename) w')
                  | (False, w') \<Rightarrow> (success_count, w'))))"

definition process_files ::
  "(float64 \<Rightarrow> 64 word) \<Rightarrow> config \<Rightarrow> (string \<Rightarrow> exn + dataset) \<Rightarrow> string list \<Rightarrow>
   nat \<times> world \<Rightarrow> nat \<times> world" where
  "process_files oor cfg src filenames st = fold (process_file oor cfg src) filenames st"

section \<open>Reading the output back\<close>

text \<open>
  The properties below are stated on the text that was written, read the way a consumer
  of the file reads it: split into lines, a line split into blank-separated fields, a
  field read as a decimal integer.
\<close>

definition lines_of :: "string \<Rightarrow> string list" where
  "lines_of s = split_char (CHR 0x0A) s"

definition fields_of :: "string \<Rightarrow> string list" where
  "fields_of s = filter (\<lambda>f. f \<noteq> []) (split_char CHR '' '' s)"

definition is_digit :: "char \<Rightarrow> bool" where
  "is_digit c = (c \<in> set ''0123456789'')"

definition digit_val :: "char \<Rightarrow> nat" where
  "digit_val c = length (takeWhile (\<lambda>d. d \<noteq> c) ''0123456789'')"

definition read_nat :: "string \<Rightarrow> nat" where
  "read_nat s = foldl (\<lambda>a c. 10 * a + digit_val c) 0 s"

definition read_int :: "string \<Rightarrow> int" where
  "read_int s =
     (if s \<noteq> [] \<and> hd s = CHR ''-'' then - int (read_nat (tl s)) else int (read_nat s))"

text \<open>The mantissa of a number in scientific notation is what stands before the
  \<open>e\<close>; its significant digits are the digits in it.\<close>

definition mantissa :: "string \<Rightarrow> string" where
  "mantissa s = takeWhile (\<lambda>c. c \<noteq> CHR ''e'') s"

definition significant_digits :: "string \<Rightarrow> nat" where
  "significant_digits s = length (filter is_digit (mantissa s))"

section \<open>Well-formed inputs\<close>

text \<open>
  A dataset is well shaped when it has the six required variables and the shapes agree:
  as many latitudes as longitudes, an energy array of shape
  (times, locations, frequencies, directions) and, if present, a factor array of shape
  (times, locations).
\<close>

definition well_shaped :: "dataset \<Rightarrow> bool" where
  "well_shaped ds =
     (case (longitude ds, latitude ds, frequency ds, direction ds, energy_density ds, time ds) of
        (Some lons, Some lats, Some frs, Some drs, Some energy, Some tms) \<Rightarrow>
          length lats = length lons \<and>
          length energy = length tms \<and>
          (\<forall>a \<in> set energy. length a = length lons \<and>
             (\<forall>b \<in> set a. length b = length frs \<and>
                (\<forall>row \<in> set b. length row = length drs))) \<and>
          (case factor ds of
             None \<Rightarrow> True
           | Some fs \<Rightarrow> length fs = length tms \<and> (\<forall>a \<in> set fs. length a = length lons))
      | _ \<Rightarrow> False)"

text \<open>A timestamp with calendar fields in range, the year in four digits.\<close>

fun valid_timestamp :: "datetime64 \<Rightarrow> bool" where
  "valid_timestamp NaT = False"
| "valid_timestamp (DateTime y mo d h mi s ns) =
     (0 \<le> y \<and> y \<le> 9999 \<and> 1 \<le> mo \<and> mo \<le> 12 \<and> 1 \<le> d \<and> d \<le> 31 \<and>
      h < 24 \<and> mi < 60 \<and> s < 60 \<and> ns < 1000000000)"

definition is_finite :: "float64 \<Rightarrow> bool" where
  "is_finite v = (case v of Fin x \<Rightarrow> True | NZero \<Rightarrow> True | _ \<Rightarrow> False)"

definition no_newline :: "string \<Rightarrow> bool" where
  "no_newline s = (CHR 0x0A \<notin> set s)"

text \<open>The strings of a configuration go into the header as they are; a configuration is
  valid when none of them breaks a line.\<close>

definition valid_config :: "config \<Rightarrow> bool" where
  "valid_config cfg =
     (no_newline (swan_version cfg) \<and> no_newline (project_name cfg) \<and>
      no_newline (run_number cfg))"

text \<open>The characters that formatted numbers and times consist of.\<close>

definition sp2_chars :: "char set" where
  "sp2_chars = set ''0123456789 -.+einfaN''"

definition plain :: "string \<Rightarrow> bool" where
  "plain s = (set s \<subseteq> sp2_chars)"

text \<open>Two worlds with the same files and directories; only their logs may differ.\<close>

definition same_fs :: "world \<Rightarrow> world \<Rightarrow> bool" where
  "same_fs w w' = (files w = files w' \<and> dirs w = dirs w')"

section \<open>The layout of the file, line by line\<close>

text \<open>
  What the encoder is expected to write for a dataset without missing variables, as a
  list of lines; the theorems further down prove that \<open>write_sp2\<close> writes exactly these
  lines, each followed by a newline.
\<close>

definition unlines :: "string list \<Rightarrow> string" where
  "unlines ls = concat (map (\<lambda>l. l @ NL) ls)"

definition swan_time_of :: "datetime64 \<Rightarrow> string" where
  "swan_time_of t = (case format_swan_time t of Inr s \<Rightarrow> s | Inl e \<Rightarrow> [])"

definition header_lines ::
  "config \<Rightarrow> float64 list \<Rightarrow> float64 list \<Rightarrow> float64 list \<Rightarrow> float64 list \<Rightarrow> nat \<Rightarrow>
   string list" where
  "header_lines cfg lons lats frs drs nloc =
     [''SWAN   1                                Swan standard spectral file, version'',
      ''$   Data produced by SWAN version '' @ swan_version cfg,
      ''$   Project: '' @ project_name cfg @ ''        ;  run number: '' @ run_number cfg,
      ''TIME                                    time-dependent data'',
      ''     1                                  time coding option'',
      ''LONLAT                                  locations in spherical coordinates'',
      fmt_d 6 (int nloc) @ ''                                  number of locations''] @
     map (\<lambda>(lon, lat). fmt_f 10 4 lon @ '' '' @ fmt_f 10 4 lat) (zip lons lats) @
     [''AFREQ                                   absolute frequencies in Hz'',
      fmt_d 6 (int (length frs)) @ ''                                  number of frequencies''] @
     map (fmt_f 10 4) frs @
     [''NDIR                                    spectral nautical directions in degr'',
      fmt_d 6 (int (length drs)) @ ''                                  number of directions''] @
     map (fmt_f 10 4) drs @
     [''QUANT'',
      ''     1                                  number of quantities in table'',
      ''EnDens                                  energy densities in J/m2/Hz/degr'',
      ''J/m2/Hz/degr                            unit'',
      fmt_e 10 4 (exception_value cfg) @ ''                          exception value'']"

definition location_lines ::
  "(float64 \<Rightarrow> 64 word) \<Rightarrow> float64 list list list list \<Rightarrow> float64 list list \<Rightarrow> nat \<Rightarrow>
   nat \<Rightarrow> nat \<Rightarrow> string list" where
  "location_lines oor energy factors nfreq t_idx p_idx =
     [''FACTOR'', fmt_e 0 16 (factors ! t_idx ! p_idx)] @
     map (\<lambda>fr_idx. row_str oor (energy ! t_idx ! p_idx ! fr_idx)) [0..<nfreq]"

definition timestep_lines ::
  "(float64 \<Rightarrow> 64 word) \<Rightarrow> datetime64 list \<Rightarrow> float64 list list list list \<Rightarrow>
   float64 list list \<Rightarrow> nat \<Rightarrow> nat \<Rightarrow> nat \<Rightarrow> string list" where
  "timestep_lines oor tms energy factors nfreq nloc t_idx =
     (swan_time_of (tms ! t_idx) @ ''                         date and time'') #
     concat (map (location_lines oor energy factors nfreq t_idx) [0..<nloc])"

definition sp2_lines ::
  "(float64 \<Rightarrow> 64 word) \<Rightarrow> config \<Rightarrow> float64 list \<Rightarrow> float64 list \<Rightarrow> float64 list \<Rightarrow>
   float64 list \<Rightarrow> datetime64 list \<Rightarrow> float64 list list list list \<Rightarrow> float64 list list \<Rightarrow>
   string list" where
  "sp2_lines oor cfg lons lats frs drs tms energy factors =
     header_lines cfg lons lats frs drs (length lons) @
     concat (map (timestep_lines oor tms energy factors (length frs) (length lons))
                 [0..<length tms])"

text \<open>The text that \<open>convert_netcdf_to_sp2\<close> leaves in the output file for a dataset
  that passed validation: what \<open>write_sp2\<close> wrote on the arrays from \<open>prepare\<close>.\<close>

definition sp2_text :: "(float64 \<Rightarrow> 64 word) \<Rightarrow> config \<Rightarrow> dataset \<Rightarrow> string" where
  "sp2_text oor cfg ds =
     (case prepare ds of
        Inr (energy, factors, nloc) \<Rightarrow> fst (write_sp2 oor cfg ds energy factors nloc)
      | Inl e \<Rightarrow> [])"

text \<open>The factor array that \<open>prepare\<close> hands to the encoder.\<close>

definition factors_of :: "dataset \<Rightarrow> nat \<Rightarrow> nat \<Rightarrow> float64 list list" where
  "factors_of ds ntime nloc =
     (case factor ds of Some fs \<Rightarrow> fs | None \<Rightarrow> replicate ntime (replicate nloc (Fin 1)))"

section \<open>A small dataset\<close>

text \<open>One time step, two locations, two frequencies and three directions, with a
  missing sample, two ties, a negative value that rounds to zero and a value of seven
  digits. All values are binary fractions. The dataset has no factor variable.\<close>

definition example_energy :: "float64 list list list list" where
  "example_energy =
     [[[[Fin (5 / 2), NaN, Fin (7 / 2)], [Fin 0, Fin 1, Fin 1000000]],
       [[Fin (- 1 / 4), Fin (51 / 4), Fin 7], [Fin 3, Fin 4, Fin (- 100000)]]]]"

definition example_ds :: dataset where
  "example_ds =
     \<lparr>longitude = Some [Fin (- 17 / 2), Fin (- 33 / 4)],
      latitude = Some [Fin 43, Fin (87 / 2)],
      frequency = Some [Fin (1 / 16), Fin (1 / 8)],
      direction = Some [Fin 0, Fin 90, Fin 180],
      energy_density = Some example_energy,
      time = Some [DateTime 2024 3 15 6 0 30 750000000],
      factor = None\<rparr>"

text \<open>The same file without its direction variable.\<close>

definition example_bad :: dataset where
  "example_bad = example_ds\<lparr>direction := None\<rparr>"

definition example_src :: "string \<Rightarrow> exn + dataset" where
  "example_src p =
     (if p = ''/data/esp_a.nc'' then Inr example_ds
      else if p = ''/data/esp_b.nc'' then Inr example_bad
      else Inl (OSError (''[Errno 2] No such file or directory: '' @ quoted p)))"

definition example_world :: world where
  "example_world = \<lparr>files = Map.empty, dirs = {''/data''}, log = []\<rparr>"

section \<open>Lemmas on decimal digits\<close>

lemma digit_char_is_digit: "d < 10 \<Longrightarrow> is_digit (digit_char d)"
proof -
  assume "d < 10"
  then have "d \<in> {0,1,2,3,4,5,6,7,8,9}" by auto
  then show ?thesis
    by (auto simp: is_digit_def digit_char_def)
qed

lemma digit_val_digit_char: "d < 10 \<Longrightarrow> digit_val (digit_char d) = d"
proof -
  assume "d < 10"
  then have "d \<in> {0,1,2,3,4,5,6,7,8,9}" by auto
  then show ?thesis
    by (auto simp: digit_val_def digit_char_def)
qed

lemma str_nat_nonempty: "str_nat n \<noteq> []"
  by (subst str_nat.simps) simp

lemma str_nat_digits: "c \<in> set (str_nat n) \<Longrightarrow> is_digit c"
proof (induction n arbitrary: c rule: str_nat.induct)
  case (1 n)
  show ?case
  proof (cases "n < 10")
    case True
    with "1.prems" show ?thesis
      by (subst (asm) str_nat.simps) (simp add: digit_char_is_digit)
  next
    case False
    with "1.prems" have "c \<in> set (str_nat (n div 10)) \<or> c = digit_char (n mod 10)"
      by (subst (asm) str_nat.simps) auto
    then show ?thesis
      using "1.IH" [OF False] by (auto simp: digit_char_is_digit)
  qed
qed

lemma read_nat_snoc: "read_nat (s @ [c]) = 10 * read_nat s + digit_val c"
  by (simp add: read_nat_def)

lemma read_nat_str_nat: "read_nat (str_nat n) = n"
proof (induction n rule: str_nat.induct)
  case (1 n)
  show ?case
  proof (cases "n < 10")
    case True
    then show ?thesis
      by (subst str_nat.simps) (simp add: read_nat_def digit_val_digit_char)
  next
    case False
    then show ?thesis
      using "1.IH" [OF False]
      by (subst str_nat.simps) (simp add: read_nat_snoc digit_val_digit_char)
  qed
qed

lemma length_str_nat_le: "0 < k \<Longrightarrow> n < 10 ^ k \<Longrightarrow> length (str_nat n) \<le> k"
proof (induction n arbitrary: k rule: str_nat.induct)
  case (1 n)
  show ?case
  proof (cases "n < 10")
    case True
    with "1.prems" show ?thesis by (subst str_nat.simps) simp
  next
    case False
    from "1.prems" obtain j where k: "k = Suc j"
      by (cases k) auto
    with "1.prems" False have j: "0 < j"
      by (cases j) auto
    from k "1.prems" have "n div 10 < 10 ^ j"
      by (simp add: less_mult_imp_div_less mult.commute)
    from "1.IH" [OF False j this] k False show ?thesis
      by (subst str_nat.simps) simp
  qed
qed

lemma length_str_nat_gt: "10 ^ k \<le> n \<Longrightarrow> k < length (str_nat n)"
proof (induction n arbitrary: k rule: str_nat.induct)
  case (1 n)
  show ?case
  proof (cases "n < 10")
    case True
    have "k = 0"
    proof (rule ccontr)
      assume "k \<noteq> 0"
      then have "(10::nat) ^ 1 \<le> 10 ^ k"
        by (intro power_increasing) auto
      with True "1.prems" show False by simp
    qed
    then show ?thesis using str_nat_nonempty [of n] by simp
  next
    case False
    show ?thesis
    proof (cases k)
      case 0
      then show ?thesis using str_nat_nonempty [of n] by simp
    next
      case (Suc j)
      with "1.prems" have "10 ^ j \<le> n div 10"
        by (simp add: less_eq_div_iff_mult_less_eq mult.commute)
      from "1.IH" [OF False this] Suc False show ?thesis
        by (subst str_nat.simps) simp
    qed
  qed
qed

lemma length_str_nat_single: "n < 10 \<Longrightarrow> length (str_nat n) = 1"
  by (subst str_nat.simps) simp

lemma str_int_nonempty: "str_int i \<noteq> []"
  by (simp add: str_int_def str_nat_nonempty)

lemma str_int_chars: "c \<in> set (str_int i) \<Longrightarrow> is_digit c \<or> c = CHR ''-''"
  by (auto simp: str_int_def dest: str_nat_digits split: if_splits)

lemma is_digit_not_special [simp]:
  "\<not> is_digit CHR ''-''" "\<not> is_digit CHR '' ''" "\<not> is_digit (CHR 0x0A)" "\<not> is_digit CHR ''.''"
  "\<not> is_digit CHR ''e''" "\<not> is_digit CHR ''+''" "\<not> is_digit CHR ''T''" "\<not> is_digit CHR '':''"
  by (simp_all add: is_digit_def)

lemma read_int_str_int: "read_int (str_int i) = i"
proof (cases "i < 0")
  case True
  then show ?thesis by (simp add: str_int_def read_int_def read_nat_str_nat)
next
  case False
  obtain c cs where s: "str_nat (nat i) = c # cs"
    using str_nat_nonempty [of "nat i"] by (cases "str_nat (nat i)") auto
  then have "is_digit c" using str_nat_digits [of c "nat i"] by simp
  then have "c \<noteq> CHR ''-''" by auto
  with False s read_nat_str_nat [of "nat i"] show ?thesis
    by (simp add: str_int_def read_int_def)
qed


section \<open>Lemmas on rounding and the integer cast\<close>

lemma floor_rat_numeral [simp]: "\<lfloor>numeral a / numeral b :: rat\<rfloor> = numeral a div numeral b"
  using floor_divide_of_int_eq [of "numeral a" "numeral b", where ?'a = rat] by simp

lemma sint_in_range:
  "- (2 ^ 63) \<le> t \<Longrightarrow> t < 2 ^ 63 \<Longrightarrow> sint (word_of_int t :: 64 word) = t"
  by (simp add: signed_take_bit_int_eq_self sint_sbintrunc')

lemma rhe_cases:
  obtains f where "of_int f \<le> x" "x < of_int f + 1"
    "(x - of_int f < 1/2 \<and> round_half_even x = f) \<or>
     (1/2 < x - of_int f \<and> round_half_even x = f + 1) \<or>
     (x - of_int f = 1/2 \<and> even (round_half_even x) \<and>
        (round_half_even x = f \<or> round_half_even x = f + 1))"
proof -
  define f where "f = \<lfloor>x\<rfloor>"
  have b: "of_int f \<le> x" "x < of_int f + 1" unfolding f_def by linarith+
  have "round_half_even x =
      (if x - of_int f < 1 / 2 then f else if 1 / 2 < x - of_int f then f + 1
       else if even f then f else f + 1)"
    unfolding round_half_even_def Let_def f_def by simp
  then have "(x - of_int f < 1/2 \<and> round_half_even x = f) \<or>
     (1/2 < x - of_int f \<and> round_half_even x = f + 1) \<or>
     (x - of_int f = 1/2 \<and> even (round_half_even x) \<and>
        (round_half_even x = f \<or> round_half_even x = f + 1))"
    by (cases "x - of_int f" "1/2 :: rat" rule: linorder_cases) auto
  with b that show ?thesis by blast
qed

lemma rhe_near: "\<bar>of_int (round_half_even x) - x\<bar> \<le> 1/2"
  by (rule rhe_cases [of x]) (auto simp: abs_if)

lemma rhe_tie:
  assumes "\<bar>of_int (round_half_even x) - x\<bar> = 1/2"
  shows "even (round_half_even x)"
proof (rule rhe_cases [of x])
  fix f
  assume b: "of_int f \<le> x" "x < of_int f + 1"
    and c: "(x - of_int f < 1/2 \<and> round_half_even x = f) \<or>
     (1/2 < x - of_int f \<and> round_half_even x = f + 1) \<or>
     (x - of_int f = 1/2 \<and> even (round_half_even x) \<and>
        (round_half_even x = f \<or> round_half_even x = f + 1))"
  from c show ?thesis
  proof (elim disjE conjE)
    assume "x - of_int f < 1/2" "round_half_even x = f"
    with assms b have False by (simp add: abs_if split: if_splits)
    then show ?thesis ..
  next
    assume "1/2 < x - of_int f" "round_half_even x = f + 1"
    with assms b have False by (simp add: abs_if split: if_splits)
    then show ?thesis ..
  qed
qed

lemma rhe_of_int [simp]: "round_half_even (of_int n) = n"
  by (simp add: round_half_even_def)

lemma rhe_mono_ge:
  assumes "of_int k \<le> x"
  shows "k \<le> round_half_even x"
proof (rule rhe_cases [of x])
  fix f
  assume b: "of_int f \<le> x" "x < of_int f + 1"
    and c: "(x - of_int f < 1/2 \<and> round_half_even x = f) \<or>
     (1/2 < x - of_int f \<and> round_half_even x = f + 1) \<or>
     (x - of_int f = 1/2 \<and> even (round_half_even x) \<and>
        (round_half_even x = f \<or> round_half_even x = f + 1))"
  from assms b have "(of_int k :: rat) < of_int (f + 1)" by simp
  then have "k < f + 1" by (simp only: of_int_less_iff)
  with c show ?thesis by auto
qed

lemma rhe_mono_le:
  assumes "x \<le> of_int k"
  shows "round_half_even x \<le> k"
proof (rule rhe_cases [of x])
  fix f
  assume b: "of_int f \<le> x" "x < of_int f + 1"
    and c: "(x - of_int f < 1/2 \<and> round_half_even x = f) \<or>
     (1/2 < x - of_int f \<and> round_half_even x = f + 1) \<or>
     (x - of_int f = 1/2 \<and> even (round_half_even x) \<and>
        (round_half_even x = f \<or> round_half_even x = f + 1))"
  from assms b have le: "(of_int f :: rat) \<le> of_int k" by simp
  then have fk: "f \<le> k" by (simp only: of_int_le_iff)
  show ?thesis
  proof (cases "f = k")
    case True
    with assms b have "x = of_int f" by simp
    with c True show ?thesis by auto
  next
    case False
    with fk have "f + 1 \<le> k" by simp
    with c show ?thesis by auto
  qed
qed

section \<open>Lemmas on splitting and joining\<close>

lemma split_char_nonempty: "split_char c s \<noteq> []"
  by (induction s) (auto split: list.splits)

lemma split_char_absent: "c \<notin> set s \<Longrightarrow> split_char c s = [s]"
  by (induction s) auto

lemma split_char_append:
  "split_char c (a @ c # b) = split_char c a @ split_char c b"
proof (induction a)
  case Nil
  show ?case by simp
next
  case (Cons x a)
  obtain p ps where "split_char c a = p # ps"
    using split_char_nonempty [of c a] by (cases "split_char c a") auto
  with Cons show ?case by simp
qed

lemma fields_append: "fields_of (a @ CHR '' '' # b) = fields_of a @ fields_of b"
  by (simp add: fields_of_def split_char_append)

lemma fields_spaces: "fields_of (replicate k CHR '' '' @ s) = fields_of s"
  by (induction k) (simp_all add: fields_of_def)

lemma fields_token: "s \<noteq> [] \<Longrightarrow> CHR '' '' \<notin> set s \<Longrightarrow> fields_of s = [s]"
  by (simp add: fields_of_def split_char_absent)

lemma fields_nil [simp]: "fields_of [] = []"
  by (simp add: fields_of_def)

lemma fields_rjust: "s \<noteq> [] \<Longrightarrow> CHR '' '' \<notin> set s \<Longrightarrow> fields_of (rjust w s) = [s]"
  by (simp add: rjust_def fields_spaces fields_token)

lemma fields_join:
  "\<forall>s \<in> set ts. s \<noteq> [] \<and> CHR '' '' \<notin> set s \<Longrightarrow>
   fields_of (join '' '' (map (rjust w) ts)) = ts"
proof (induction ts rule: induct_list012)
  case 1
  show ?case by simp
next
  case (2 x)
  then show ?case by (simp add: fields_rjust)
next
  case (3 x y zs)
  then show ?case by (simp add: fields_append fields_rjust)
qed

lemma str_int_no_space: "CHR '' '' \<notin> set (str_int i)"
  using str_int_chars [of "CHR '' ''" i] by auto

lemma fields_row_str:
  "fields_of (row_str oor row) = map (\<lambda>val. str_int (sint val)) (row_ints oor row)"
proof -
  let ?ts = "map (\<lambda>val. str_int (sint val)) (row_ints oor row)"
  have "row_str oor row = join '' '' (map (rjust 6) ?ts)"
    by (simp add: row_str_def fmt_d_def comp_def)
  moreover have "fields_of (join '' '' (map (rjust 6) ?ts)) = ?ts"
    by (rule fields_join) (auto simp: str_int_nonempty str_int_no_space)
  ultimately show ?thesis by simp
qed

lemma length_row_ints [simp]: "length (row_ints oor row) = length row"
  by (simp add: row_ints_def astype_int_def np_round_def nan_to_num_def)

lemma row_ints_nth:
  "i < length row \<Longrightarrow>
   row_ints oor row ! i = astype_int1 oor (np_round1 (nan_to_num1 (Fin 0) (row ! i)))"
  by (simp add: row_ints_def astype_int_def np_round_def nan_to_num_def)

lemma length_rjust: "length (rjust w s) = max w (length s)"
  by (simp add: rjust_def)

lemma length_str_int_le6: "length (str_int i) \<le> 6 \<longleftrightarrow> - 99999 \<le> i \<and> i \<le> 999999"
proof (cases "i < 0")
  case True
  have "length (str_nat (nat (- i))) \<le> 5 \<longleftrightarrow> nat (- i) < 10 ^ 5"
    using length_str_nat_le [of 5 "nat (- i)"] length_str_nat_gt [of 5 "nat (- i)"]
    by (cases "nat (- i) < 10 ^ 5") auto
  with True show ?thesis by (auto simp: str_int_def)
next
  case False
  have "length (str_nat (nat i)) \<le> 6 \<longleftrightarrow> nat i < 10 ^ 6"
    using length_str_nat_le [of 6 "nat i"] length_str_nat_gt [of 6 "nat i"]
    by (cases "nat i < 10 ^ 6") auto
  with False show ?thesis by (auto simp: str_int_def)
qed

lemma length_fmt_d6: "length (fmt_d 6 i) = 6 \<longleftrightarrow> - 99999 \<le> i \<and> i \<le> 999999"
  using length_str_int_le6 [of i] by (auto simp: fmt_d_def length_rjust)

section \<open>One sample: NaN, rounding and the cast\<close>

lemma rhe_zero [simp]: "round_half_even 0 = 0"
  using rhe_of_int [of 0] by simp

lemma sample_nan: "astype_int1 oor (np_round1 (nan_to_num1 (Fin 0) NaN)) = 0"
  by (simp add: trunc_rat_def)

lemma trunc_rat_of_int [simp]: "trunc_rat (of_int n) = n"
  by (simp add: trunc_rat_def)

lemma sample_fin:
  assumes "- (2 ^ 63) \<le> round_half_even x" "round_half_even x < 2 ^ 63"
  shows "sint (astype_int1 oor (np_round1 (nan_to_num1 (Fin 0) (Fin x)))) = round_half_even x"
proof (cases "round_half_even x = 0 \<and> x < 0")
  case True
  then show ?thesis by (simp add: Let_def)
next
  case False
  with assms show ?thesis by (auto simp: Let_def sint_in_range)
qed

lemma sample_too_large:
  "sint (astype_int1 oor (np_round1 (nan_to_num1 (Fin 0) (Fin (2 ^ 63))))) \<noteq> round_half_even (2 ^ 63)"
proof -
  have r: "round_half_even (2 ^ 63) = 2 ^ 63"
    using rhe_of_int [of "2 ^ 63"] by simp
  have "sint w < 2 ^ 63" for w :: "64 word"
    using sint_lt [of w] by simp
  then have "sint w \<noteq> 2 ^ 63" for w :: "64 word"
    by (metis less_irrefl)
  with r show ?thesis by simp
qed

text \<open>
  Claim C1. Where the energy row holds NaN, \<^verbatim>\<open>nan_to_num\<close> puts 0.0 in its place before
  the row is rounded, so the rounding sees 0.0, the integer written at that position is 0
  (the field reads \<open>0\<close>), and it is not the exception value of the configuration.
\<close>

theorem C1_nan_is_written_as_zero:
  assumes "i < length row" and "row ! i = NaN"
  shows "nan_to_num row (Fin 0) ! i = Fin 0 \<and>
         np_round (nan_to_num row (Fin 0)) ! i = Fin 0 \<and>
         sint (row_ints oor row ! i) = 0 \<and>
         fields_of (row_str oor row) ! i = ''0'' \<and>
         Fin (of_int (sint (row_ints oor row ! i))) \<noteq> exception_value (CONFIG cwd)"
proof -
  from assms have a: "nan_to_num row (Fin 0) ! i = Fin 0"
    by (simp add: nan_to_num_def)
  from assms have b: "np_round (nan_to_num row (Fin 0)) ! i = Fin 0"
    by (simp add: nan_to_num_def np_round_def Let_def)
  from assms have "row_ints oor row ! i = astype_int1 oor (np_round1 (nan_to_num1 (Fin 0) NaN))"
    by (simp only: row_ints_nth)
  then have c: "row_ints oor row ! i = 0"
    by (simp only: sample_nan)
  have "str_int 0 = ''0''"
    by (simp add: str_int_def str_nat.simps digit_char_def)
  with assms c have d: "fields_of (row_str oor row) ! i = ''0''"
    by (simp add: fields_row_str)
  from c have e: "Fin (of_int (sint (row_ints oor row ! i))) \<noteq> exception_value (CONFIG cwd)"
    by (simp add: CONFIG_def)
  from a b c d e show ?thesis by simp
qed

theorem C1_nan_is_written_as_zero_witness:
  "1 < length [Fin (5 / 2), NaN, Fin (7 / 2)] \<and> [Fin (5 / 2), NaN, Fin (7 / 2)] ! 1 = NaN \<and>
   sint (row_ints oor_x86 [Fin (5 / 2), NaN, Fin (7 / 2)] ! 1) = 0 \<and>
   fields_of (row_str oor_x86 [Fin (5 / 2), NaN, Fin (7 / 2)]) ! 1 = ''0'' \<and>
   Fin (of_int (sint (row_ints oor_x86 [Fin (5 / 2), NaN, Fin (7 / 2)] ! 1)))
     \<noteq> exception_value (CONFIG ''/data'')"
proof -
  have h: "1 < length [Fin (5 / 2), NaN, Fin (7 / 2)]" "[Fin (5 / 2), NaN, Fin (7 / 2)] ! 1 = NaN"
    by simp_all
  from C1_nan_is_written_as_zero [OF h, of oor_x86 "''/data''"] h show ?thesis
    by blast
qed

text \<open>
  Claim C2, as amended. A finite energy value whose rounded value fits the signed 64-bit
  integer of the cast is written as the nearest integer, a tie going to the even
  neighbour: the integer in the row and the field read back from the text both equal
  \<open>round_half_even x\<close>, which is within one half of \<open>x\<close> and even whenever \<open>x\<close> lies
  exactly between two integers.
\<close>

theorem C2_round_half_even:
  assumes "i < length row" and "row ! i = Fin x"
    and "- (2 ^ 63) \<le> round_half_even x" and "round_half_even x < 2 ^ 63"
  shows "sint (row_ints oor row ! i) = round_half_even x \<and>
         read_int (fields_of (row_str oor row) ! i) = round_half_even x \<and>
         \<bar>of_int (round_half_even x) - x\<bar> \<le> 1 / 2 \<and>
         (\<bar>of_int (round_half_even x) - x\<bar> = 1 / 2 \<longrightarrow> even (round_half_even x))"
proof -
  from assms(1,2)
  have "row_ints oor row ! i = astype_int1 oor (np_round1 (nan_to_num1 (Fin 0) (Fin x)))"
    by (simp only: row_ints_nth)
  with assms(3,4) have a: "sint (row_ints oor row ! i) = round_half_even x"
    by (simp only: sample_fin)
  with assms(1) have b: "read_int (fields_of (row_str oor row) ! i) = round_half_even x"
    by (simp add: fields_row_str read_int_str_int)
  from a b rhe_near [of x] rhe_tie [of x] show ?thesis by blast
qed

theorem C2_round_half_even_witness:
  "sint (row_ints oor_x86 [Fin (5 / 2), NaN, Fin (7 / 2)] ! 0) = 2 \<and>
   sint (row_ints oor_x86 [Fin (5 / 2), NaN, Fin (7 / 2)] ! 2) = 4 \<and>
   read_int (fields_of (row_str oor_x86 [Fin (5 / 2), NaN, Fin (7 / 2)]) ! 0) = 2 \<and>
   read_int (fields_of (row_str oor_x86 [Fin (5 / 2), NaN, Fin (7 / 2)]) ! 2) = 4"
proof -
  have r: "round_half_even (5 / 2) = 2" "round_half_even (7 / 2) = 4"
    by (simp_all add: round_half_even_def Let_def)
  show ?thesis
    using C2_round_half_even [of 0 "[Fin (5 / 2), NaN, Fin (7 / 2)]" "5 / 2" oor_x86]
      C2_round_half_even [of 2 "[Fin (5 / 2), NaN, Fin (7 / 2)]" "7 / 2" oor_x86]
    by (simp add: r)
qed

text \<open>
  The claim as stated fails for a value beyond the 64-bit range: the energy value
  \<open>2 ^ 63\<close> is an integer, so rounding leaves it, but the cast cannot hold it and
  another integer is written.
\<close>

theorem C2_counterexample:
  "sint (row_ints oor_x86 [Fin (2 ^ 63)] ! 0) \<noteq> round_half_even (2 ^ 63)"
proof -
  have "row_ints oor_x86 [Fin (2 ^ 63)] ! 0 =
      astype_int1 oor_x86 (np_round1 (nan_to_num1 (Fin 0) ([Fin (2 ^ 63)] ! 0)))"
    by (rule row_ints_nth) simp
  with sample_too_large [of oor_x86] show ?thesis
    by (simp only: nth_Cons_0 not_False_eq_True)
qed

section \<open>Timestamps\<close>

lemma zfill_digits: "list_all is_digit s \<Longrightarrow> list_all is_digit (zfill w s)"
proof -
  assume a: "list_all is_digit s"
  have "is_digit CHR ''0''" by (simp add: is_digit_def)
  with a show ?thesis by (auto simp: zfill_def list_all_iff)
qed

lemma length_zfill: "length (zfill w s) = max w (length s)"
  by (simp add: zfill_def)

lemma str_nat_all_digits: "list_all is_digit (str_nat n)"
  by (simp add: list_all_iff str_nat_digits)

lemma two_digits_props:
  "n < 100 \<Longrightarrow> length (two_digits n) = 2 \<and> list_all is_digit (two_digits n)"
  using length_str_nat_le [of 2 n] str_nat_nonempty [of n]
  by (auto simp: two_digits_def length_zfill zfill_digits str_nat_all_digits)

lemma four_digits_props:
  "n < 10000 \<Longrightarrow> length (zfill 4 (str_nat n)) = 4 \<and> list_all is_digit (zfill 4 (str_nat n))"
  using length_str_nat_le [of 4 n]
  by (auto simp: length_zfill zfill_digits str_nat_all_digits)

lemma digits_free_of:
  "list_all is_digit s \<Longrightarrow> \<not> is_digit c \<Longrightarrow> c \<notin> set s"
  by (auto simp: list_all_iff)

lemma replace_char_digits:
  "list_all is_digit s \<Longrightarrow> \<not> is_digit c \<Longrightarrow> replace_char c s = s"
  by (auto simp: replace_char_def list_all_iff filter_id_conv)

lemma replace_char_append [simp]:
  "replace_char c (a @ b) = replace_char c a @ replace_char c b"
  by (simp add: replace_char_def)

lemma replace_char_self [simp]: "replace_char c (c # s) = replace_char c s"
  by (simp add: replace_char_def)

lemma read_nat_zeros: "read_nat (replicate k CHR ''0'' @ s) = read_nat s"
  by (induction k) (simp_all add: read_nat_def digit_val_def)

lemma read_nat_zfill: "read_nat (zfill w (str_nat n)) = n"
  by (simp add: zfill_def read_nat_zeros read_nat_str_nat)

lemma format_swan_time_valid:
  assumes "valid_timestamp (DateTime y mo d h mi s ns)"
  shows "format_swan_time (DateTime y mo d h mi s ns) =
         Inr ((zfill 4 (str_nat (nat y)) @ two_digits mo @ two_digits d) @ ''.'' @
              (two_digits h @ two_digits mi @ two_digits s))"
proof -
  let ?Y = "zfill 4 (str_nat (nat y))"
  from assms have y: "list_all is_digit ?Y" and y0: "c_fmt_04d y = ?Y"
    using four_digits_props [of "nat y"] by (auto simp: c_fmt_04d_def)
  from assms have p: "list_all is_digit (two_digits mo)" "list_all is_digit (two_digits d)"
      "list_all is_digit (two_digits h)" "list_all is_digit (two_digits mi)"
      "list_all is_digit (two_digits s)"
    using two_digits_props [of mo] two_digits_props [of d] two_digits_props [of h]
      two_digits_props [of mi] two_digits_props [of s] by auto
  let ?date = "?Y @ ''-'' @ two_digits mo @ ''-'' @ two_digits d"
  let ?time = "two_digits h @ '':'' @ two_digits mi @ '':'' @ two_digits s"
  have nT: "CHR ''T'' \<notin> set ?date" "CHR ''T'' \<notin> set ?time"
    using digits_free_of [OF y, of "CHR ''T''"] digits_free_of [OF p(1), of "CHR ''T''"]
      digits_free_of [OF p(2), of "CHR ''T''"] digits_free_of [OF p(3), of "CHR ''T''"]
      digits_free_of [OF p(4), of "CHR ''T''"] digits_free_of [OF p(5), of "CHR ''T''"]
    by simp_all
  have "datetime_as_string_s (DateTime y mo d h mi s ns) = ?date @ CHR ''T'' # ?time"
    by (simp add: y0)
  moreover have "split_char CHR ''T'' (?date @ CHR ''T'' # ?time) = [?date] @ [?time]"
    using split_char_append [of "CHR ''T''" ?date ?time]
      split_char_absent [OF nT(1)] split_char_absent [OF nT(2)]
    by (simp only:)
  ultimately
  have sp: "split_char CHR ''T'' (datetime_as_string_s (DateTime y mo d h mi s ns)) = [?date, ?time]"
    by simp
  have rd: "replace_char CHR ''-'' ?date = ?Y @ two_digits mo @ two_digits d"
    using y p by (simp add: replace_char_digits)
  have rt: "replace_char CHR '':'' ?time = two_digits h @ two_digits mi @ two_digits s"
    using p by (simp add: replace_char_digits)
  show ?thesis
    unfolding format_swan_time_def Let_def sp using rd rt by simp
qed


text \<open>
  Claim C3, as amended. For a timestamp that is not NaT, with calendar fields in range
  and a year from 0 to 9999, the
  formatted time is eight digits (year, month, day), a period and six digits (hour,
  minute, second): dashes and colons are gone. What the value holds below one second
  does not reach the text, so it is cut off and never rounds the second up.
\<close>

theorem C3_format_swan_time:
  assumes "valid_timestamp (DateTime y mo d h mi s ns)"
  shows "format_swan_time (DateTime y mo d h mi s ns) =
         Inr ((zfill 4 (str_nat (nat y)) @ two_digits mo @ two_digits d) @ ''.'' @
              (two_digits h @ two_digits mi @ two_digits s)) \<and>
         length (zfill 4 (str_nat (nat y)) @ two_digits mo @ two_digits d) = 8 \<and>
         list_all is_digit (zfill 4 (str_nat (nat y)) @ two_digits mo @ two_digits d) \<and>
         length (two_digits h @ two_digits mi @ two_digits s) = 6 \<and>
         list_all is_digit (two_digits h @ two_digits mi @ two_digits s) \<and>
         read_nat (zfill 4 (str_nat (nat y))) = nat y \<and>
         read_nat (two_digits mo) = mo \<and> read_nat (two_digits d) = d \<and>
         read_nat (two_digits h) = h \<and> read_nat (two_digits mi) = mi \<and>
         read_nat (two_digits s) = s \<and>
         format_swan_time (DateTime y mo d h mi s ns) = format_swan_time (DateTime y mo d h mi s 0)"
proof -
  from assms have "nat y < 10000" "mo < 100" "d < 100" "h < 100" "mi < 100" "s < 100"
    by auto
  then show ?thesis
    using format_swan_time_valid [OF assms] format_swan_time_valid [of y mo d h mi s 0] assms
      four_digits_props [of "nat y"] two_digits_props [of mo] two_digits_props [of d]
      two_digits_props [of h] two_digits_props [of mi] two_digits_props [of s]
    by (simp add: read_nat_zfill two_digits_def)
qed

theorem C3_format_swan_time_witness:
  "valid_timestamp (DateTime 2024 3 15 6 0 30 0) \<and>
   valid_timestamp (DateTime 2024 3 15 6 0 30 750000000) \<and>
   format_swan_time (DateTime 2024 3 15 6 0 30 0) = Inr ''20240315.060030'' \<and>
   format_swan_time (DateTime 2024 3 15 6 0 30 750000000) = Inr ''20240315.060030''"
proof -
  have v: "valid_timestamp (DateTime 2024 3 15 6 0 30 0)"
    "valid_timestamp (DateTime 2024 3 15 6 0 30 750000000)"
    by simp_all
  have e: "zfill 4 (str_nat (nat 2024)) = ''2024''" "two_digits 3 = ''03''"
    "two_digits 15 = ''15''" "two_digits 6 = ''06''" "two_digits 0 = ''00''"
    "two_digits 30 = ''30''"
    by (simp_all add: two_digits_def zfill_def str_nat.simps digit_char_def)
  have a: "format_swan_time (DateTime 2024 3 15 6 0 30 0) =
      Inr ((zfill 4 (str_nat (nat 2024)) @ two_digits 3 @ two_digits 15) @ ''.'' @
           (two_digits 6 @ two_digits 0 @ two_digits 30))"
    using C3_format_swan_time [OF v(1)] by (rule conjunct1)
  have b: "format_swan_time (DateTime 2024 3 15 6 0 30 750000000) =
      Inr ((zfill 4 (str_nat (nat 2024)) @ two_digits 3 @ two_digits 15) @ ''.'' @
           (two_digits 6 @ two_digits 0 @ two_digits 30))"
    using C3_format_swan_time [OF v(2)] by (rule conjunct1)
  have c: "(zfill 4 (str_nat (nat 2024)) @ two_digits 3 @ two_digits 15) @ ''.'' @
           (two_digits 6 @ two_digits 0 @ two_digits 30) = ''20240315.060030''"
    by (simp only: e append.simps)
  from a b c v show ?thesis by (simp only: simp_thms)
qed

text \<open>
  The claim as stated fails outside these timestamps. A missing time (NaT) is printed as
  \<open>NaT\<close>, which splits at its own letter \<open>T\<close> into \<open>Na\<close> and an empty time; a year of
  five digits is written with five digits.
\<close>

theorem C3_counterexample:
  "format_swan_time NaT = Inr ''Na.'' \<and>
   format_swan_time (DateTime 12345 6 7 8 9 10 0) = Inr ''123450607.080910''"
proof -
  have a: "format_swan_time NaT = Inr ''Na.''"
    by (simp add: format_swan_time_def replace_char_def)
  have d: "str_nat 12345 = ''12345''"
    by (simp add: str_nat.simps digit_char_def)
  have e: "c_fmt_04d 12345 = ''12345''" "two_digits 6 = ''06''" "two_digits 7 = ''07''"
    "two_digits 8 = ''08''" "two_digits 9 = ''09''" "two_digits 10 = ''10''"
    by (simp_all add: c_fmt_04d_def two_digits_def zfill_def d str_nat.simps digit_char_def)
  have "datetime_as_string_s (DateTime 12345 6 7 8 9 10 0) = ''12345-06-07T08:09:10''"
    by (simp add: e)
  then have b: "format_swan_time (DateTime 12345 6 7 8 9 10 0) = Inr ''123450607.080910''"
    by (simp add: format_swan_time_def replace_char_def)
  from a b show ?thesis by (rule conjI)
qed

section \<open>Scientific notation\<close>

lemma format_swan_time_NaT: "format_swan_time NaT = Inr ''Na.''"
  by (simp add: format_swan_time_def replace_char_def)

lemma exp_up_bounds:
  "10 ^ n \<le> x \<Longrightarrow> 10 ^ exp_up x n \<le> x \<and> x < 10 ^ (exp_up x n + 1)"
proof (induction x n rule: exp_up.induct)
  case (1 x n)
  show ?case
  proof (cases "10 ^ (n + 1) \<le> x")
    case True
    from "1.IH" [OF True True] True show ?thesis
      by (subst (1 2) exp_up.simps) simp
  next
    case False
    with "1.prems" show ?thesis
      by (subst (1 2) exp_up.simps) simp
  qed
qed

lemma exp_down_bounds:
  "0 < x \<Longrightarrow> x * 10 ^ n < 10 \<Longrightarrow>
   1 \<le> x * 10 ^ exp_down x n \<and> x * 10 ^ exp_down x n < 10"
proof (induction x n rule: exp_down.induct)
  case (1 x n)
  show ?case
  proof (cases "x * 10 ^ n < 1")
    case True
    with "1.prems" have c: "0 < x \<and> x * 10 ^ n < 1" by simp
    from True have "x * 10 ^ (n + 1) < 10" by simp
    from "1.IH" [OF c "1.prems"(1) this] c show ?thesis
      by (subst (1 2) exp_down.simps) simp
  next
    case False
    with "1.prems" show ?thesis
      by (subst (1 2) exp_down.simps) simp
  qed
qed

lemma scale10_sci_exponent:
  assumes "0 < x"
  shows "1 \<le> scale10 x (sci_exponent x) \<and> scale10 x (sci_exponent x) < 10"
proof (cases "1 \<le> x")
  case True
  then have "10 ^ exp_up x 0 \<le> x \<and> x < 10 ^ (exp_up x 0 + 1)"
    using exp_up_bounds [of 0 x] by simp
  with True show ?thesis
    by (simp add: scale10_def sci_exponent_def pos_le_divide_eq pos_divide_less_eq mult.commute)
next
  case False
  with assms have "1 \<le> x * 10 ^ exp_down x 0 \<and> x * 10 ^ exp_down x 0 < 10"
    using exp_down_bounds [of x 0] by simp
  moreover have "scale10 x (- int k) = x * 10 ^ k" for k
  proof (cases k)
    case 0
    then show ?thesis by (simp add: scale10_def)
  next
    case (Suc j)
    then have "\<not> (0 \<le> - int k)" "nat (- (- int k)) = k" by simp_all
    then show ?thesis by (simp only: scale10_def if_False)
  qed
  ultimately show ?thesis using False
    by (simp add: sci_exponent_def)
qed

lemma sci_round_bounds:
  assumes "0 < x" and "sci_round p x = (m, e)"
  shows "10 ^ p \<le> m \<and> m < 10 ^ (p + 1)"
proof -
  define y where "y = scale10 x (sci_exponent x) * 10 ^ p"
  define r where "r = round_half_even y"
  from scale10_sci_exponent [OF assms(1)]
  have "of_int (10 ^ p) \<le> y" "y \<le> of_int (10 ^ (p + 1))"
    by (simp_all add: y_def mult.commute [of _ "10 ^ p"] mult_left_mono less_imp_le)
  then have r: "10 ^ p \<le> r" "r \<le> 10 ^ (p + 1)"
    unfolding r_def by (simp_all only: rhe_mono_ge rhe_mono_le)
  then have n: "(10::nat) ^ p \<le> nat r" "nat r \<le> 10 ^ (p + 1)"
    by (simp_all add: le_nat_iff nat_le_iff)
  from assms have "(m, e) = (if nat r = 10 ^ (p + 1) then (10 ^ p, sci_exponent x + 1)
      else (nat r, sci_exponent x))"
    by (auto simp: sci_round_def Let_def r_def y_def split: if_splits)
  with n show ?thesis
    by (auto split: if_splits)
qed

lemma sci_round_zero: "sci_round p 0 = (0, 0)"
  by (simp add: sci_round_def)

section \<open>Significant digits\<close>

lemma filter_digits_id: "list_all is_digit s \<Longrightarrow> filter is_digit s = s"
  by (simp add: list_all_iff filter_id_conv)

lemma mantissa_digit_count:
  assumes "m = 0 \<or> (10 ^ p \<le> m \<and> m < 10 ^ (p + 1))"
  shows "length (filter is_digit
           (str_nat (m div 10 ^ p) @
            (if p = 0 then [] else CHR ''.'' # zfill p (str_nat (m mod 10 ^ p))))) = p + 1"
proof -
  from assms have "m div 10 ^ p < 10"
    by (auto simp: less_mult_imp_div_less mult.commute)
  then have a: "length (str_nat (m div 10 ^ p)) = 1"
    by (rule length_str_nat_single)
  have b: "length (zfill p (str_nat (m mod 10 ^ p))) = p" if "0 < p"
    using length_str_nat_le [OF that, of "m mod 10 ^ p"] by (simp add: length_zfill)
  have c: "filter is_digit (str_nat n) = str_nat n" for n
    by (simp add: filter_digits_id str_nat_all_digits)
  have d: "filter is_digit (zfill w (str_nat n)) = zfill w (str_nat n)" for w n
    by (simp add: filter_digits_id zfill_digits str_nat_all_digits)
  from a b show ?thesis
    by (simp add: c d)
qed

lemma mantissa_no_e:
  "CHR ''e'' \<notin> set (str_nat a @ (if p = 0 then [] else CHR ''.'' # zfill p (str_nat b)))"
  using digits_free_of [OF str_nat_all_digits, of "CHR ''e''" a]
    digits_free_of [OF zfill_digits [OF str_nat_all_digits], of "CHR ''e''" p b]
  by simp

lemma sci_round_cases:
  assumes "0 \<le> x"
  obtains m e where "sci_round p x = (m, e)" "m = 0 \<or> (10 ^ p \<le> m \<and> m < 10 ^ (p + 1))"
proof (cases "x = 0")
  case True
  then show ?thesis using that [of 0 0] by (simp add: sci_round_zero)
next
  case False
  obtain m e where me: "sci_round p x = (m, e)" by (cases "sci_round p x")
  from False assms have "0 < x" by simp
  from sci_round_bounds [OF this me] me that show ?thesis by blast
qed

lemma significant_digits_sci:
  assumes "0 \<le> x" and "\<not> is_digit c" "c \<noteq> CHR ''e''" "sign = [] \<or> sign = [c]"
  shows "significant_digits (rjust w (sign @ sci_digits p x)) = p + 1"
proof (rule sci_round_cases [OF assms(1), of p])
  fix m e
  assume me: "sci_round p x = (m, e)" and b: "m = 0 \<or> (10 ^ p \<le> m \<and> m < 10 ^ (p + 1))"
  define mant where "mant = str_nat (m div 10 ^ p) @
       (if p = 0 then [] else CHR ''.'' # zfill p (str_nat (m mod 10 ^ p)))"
  define pre where "pre = replicate (w - length (sign @ sci_digits p x)) CHR '' '' @ sign"
  have s: "rjust w (sign @ sci_digits p x) = (pre @ mant) @ CHR ''e'' # exp_str e"
    by (simp add: rjust_def sci_digits_def me mant_def pre_def)
  have ne: "CHR ''e'' \<notin> set mant"
    unfolding mant_def by (rule mantissa_no_e)
  from assms have "CHR ''e'' \<notin> set pre" "filter is_digit pre = []"
    by (auto simp: pre_def)
  with ne have "mantissa ((pre @ mant) @ CHR ''e'' # exp_str e) = pre @ mant"
    unfolding mantissa_def by (subst takeWhile_append2) auto
  with s \<open>filter is_digit pre = []\<close> mantissa_digit_count [OF b] show ?thesis
    by (simp add: significant_digits_def mant_def)
qed

lemma significant_digits_fmt_e:
  "is_finite v \<Longrightarrow> significant_digits (fmt_e w p v) = p + 1"
proof (cases v)
  case NZero
  have "significant_digits (rjust w ([CHR ''-''] @ sci_digits p 0)) = p + 1"
    by (rule significant_digits_sci) simp_all
  with NZero show ?thesis by simp
next
  case (Fin x)
  have "significant_digits (rjust w ((if x < 0 then [CHR ''-''] else []) @ sci_digits p \<bar>x\<bar>)) = p + 1"
    by (rule significant_digits_sci [where c = "CHR ''-''"]) auto
  with Fin show ?thesis by simp
qed (simp_all add: is_finite_def)

lemma leading_digit_count:
  assumes "m = 0 \<or> (10 ^ p \<le> m \<and> m < 10 ^ (p + 1))"
  shows "length (str_nat (m div 10 ^ p)) = 1"
proof -
  from assms have "m div 10 ^ p < 10"
    by (auto simp: less_mult_imp_div_less mult.commute)
  then show ?thesis by (rule length_str_nat_single)
qed

lemma rhe_numeral [simp]: "round_half_even (numeral k) = numeral k"
  using rhe_of_int [of "numeral k"] by simp

lemma rhe_numeral_power [simp]: "round_half_even (numeral k ^ n) = numeral k ^ n"
  using rhe_of_int [of "numeral k ^ n"] by simp

lemma str_nat_digit: "n < 10 \<Longrightarrow> str_nat n = [digit_char n]"
  by (subst str_nat.simps) simp

lemma sci_round_one: "sci_round 16 1 = (10 ^ 16, 0)"
  by (simp add: sci_round_def sci_exponent_def scale10_def exp_up.simps Let_def)

lemma zfill_16_zero: "zfill 16 ''0'' = ''0000000000000000''"
  by (simp add: zfill_def eval_nat_numeral)

lemma fmt_e_one: "fmt_e 0 16 (Fin 1) = ''1.0000000000000000e+00''"
proof -
  have "str_nat 0 = ''0''" "str_nat 1 = ''1''"
    by (simp_all add: str_nat_digit digit_char_def)
  moreover have "zfill 2 ''0'' = ''00''"
    by (simp add: zfill_def)
  ultimately show ?thesis
    by (simp add: sci_digits_def sci_round_one exp_str_def rjust_def zfill_16_zero)
qed

lemma sci_round_99: "sci_round 4 99 = (99000, 1)"
  by (simp add: sci_round_def sci_exponent_def scale10_def exp_up.simps Let_def)

lemma str_nat_9000: "str_nat 9000 = ''9000''"
  by (simp add: str_nat.simps digit_char_def)

lemma fmt_e_exception: "fmt_e 10 4 (Fin (- 99)) = ''-9.9000e+01''"
  by (simp add: sci_digits_def sci_round_99 exp_str_def rjust_def zfill_def str_nat_digit
      str_nat_9000 digit_char_def)

section \<open>The encoder writes the expected lines\<close>

lemma wr_bind_write: "wr_bind (f_write s) f = (s @ fst (f ()), snd (f ()))"
  by (simp add: wr_bind_def f_write_def)

lemma wr_bind_ok: "wr_bind (s, Inr a) f = (s @ fst (f a), snd (f a))"
  by (simp add: wr_bind_def)

lemma wr_bind_lift_Inr: "wr_bind (lift (Inr a)) f = f a"
  by (simp add: wr_bind_def lift_def)

lemma wr_bind_lift_Inl: "wr_bind (lift (Inl e)) f = ([], Inl e)"
  by (simp add: wr_bind_def lift_def)

lemma seqs_map_ok:
  "(\<And>x. x \<in> set xs \<Longrightarrow> f x = (g x, Inr ())) \<Longrightarrow> seqs (map f xs) = (concat (map g xs), Inr ())"
  by (induction xs) (simp_all add: wr_bind_ok)

lemma seqs_map_write: "seqs (map (\<lambda>x. f_write (g x)) xs) = (concat (map g xs), Inr ())"
  by (rule seqs_map_ok) (simp add: f_write_def)

lemma seqs_map_write2:
  "seqs (map (\<lambda>(a, b). f_write (g a b)) zs) = (concat (map (\<lambda>(a, b). g a b) zs), Inr ())"
  by (rule seqs_map_ok) (auto simp: f_write_def)

lemma unlines_append: "unlines (a @ b) = unlines a @ unlines b"
  by (simp add: unlines_def)

lemma unlines_Cons: "unlines (l # ls) = l @ NL @ unlines ls"
  by (simp add: unlines_def)

lemma unlines_Nil: "unlines [] = []"
  by (simp add: unlines_def)

lemma unlines_map: "unlines (map f xs) = concat (map (\<lambda>x. f x @ NL) xs)"
  by (simp add: unlines_def comp_def)

lemma unlines_concat: "unlines (concat ls) = concat (map unlines ls)"
  by (induction ls) (simp_all add: unlines_append unlines_Nil)

lemma attr_Some: "attr name (Some x) = Inr x"
  by (simp add: attr_def)

lemma seqs_all_ok:
  "list_all (\<lambda>m. snd m = Inr ()) ms \<Longrightarrow> seqs ms = (concat (map fst ms), Inr ())"
  by (induction ms) (auto simp: wr_bind_def)

lemma write_sp2_header_ok:
  assumes "longitude ds = Some lons" "latitude ds = Some lats"
    "frequency ds = Some frs" "direction ds = Some drs"
  shows "write_sp2_header cfg ds nloc = (unlines (header_lines cfg lons lats frs drs nloc), Inr ())"
  unfolding write_sp2_header_def
  apply (subst seqs_all_ok)
   apply (simp add: assms attr_Some wr_bind_lift_Inr seqs_map_write seqs_map_write2)
   apply (simp add: f_write_def)
  apply (simp add: assms attr_Some wr_bind_lift_Inr seqs_map_write seqs_map_write2)
  apply (simp add: f_write_def header_lines_def unlines_def comp_def case_prod_unfold)
  done

lemma c_fmt_04d_chars: "c \<in> set (c_fmt_04d y) \<Longrightarrow> is_digit c \<or> c = CHR ''-''"
proof -
  assume a: "c \<in> set (c_fmt_04d y)"
  have "list_all is_digit (zfill w (str_nat n))" for w n
    by (rule zfill_digits) (rule str_nat_all_digits)
  then have "c \<in> set (zfill w (str_nat n)) \<Longrightarrow> is_digit c" for w n
    by (simp add: list_all_iff)
  with a show ?thesis
    by (auto simp: c_fmt_04d_def split: if_splits)
qed

lemma two_digits_chars: "c \<in> set (two_digits n) \<Longrightarrow> is_digit c"
  using zfill_digits [OF str_nat_all_digits, of 2 n]
  by (simp add: two_digits_def list_all_iff)

lemma datetime_as_string_s_DateTime:
  "datetime_as_string_s (DateTime y mo d h mi s ns) =
   (c_fmt_04d y @ ''-'' @ two_digits mo @ ''-'' @ two_digits d) @ CHR ''T'' #
   (two_digits h @ '':'' @ two_digits mi @ '':'' @ two_digits s)"
  by simp

lemma format_swan_time_DateTime:
  "format_swan_time (DateTime y mo d h mi s ns) =
   Inr (replace_char CHR ''-'' (c_fmt_04d y @ ''-'' @ two_digits mo @ ''-'' @ two_digits d) @
        ''.'' @ replace_char CHR '':'' (two_digits h @ '':'' @ two_digits mi @ '':'' @ two_digits s))"
proof -
  let ?date = "c_fmt_04d y @ ''-'' @ two_digits mo @ ''-'' @ two_digits d"
  let ?time = "two_digits h @ '':'' @ two_digits mi @ '':'' @ two_digits s"
  have nT: "CHR ''T'' \<notin> set ?date" "CHR ''T'' \<notin> set ?time"
    using c_fmt_04d_chars [of "CHR ''T''" y] two_digits_chars [of "CHR ''T''" mo]
      two_digits_chars [of "CHR ''T''" d] two_digits_chars [of "CHR ''T''" h]
      two_digits_chars [of "CHR ''T''" mi] two_digits_chars [of "CHR ''T''" s]
    by auto
  have "split_char CHR ''T'' (?date @ CHR ''T'' # ?time) = [?date] @ [?time]"
    by (simp only: split_char_append split_char_absent [OF nT(1)] split_char_absent [OF nT(2)])
  then have "split_char CHR ''T'' (datetime_as_string_s (DateTime y mo d h mi s ns)) = [?date, ?time]"
    by (simp only: datetime_as_string_s_DateTime append.simps)
  then show ?thesis
    unfolding format_swan_time_def Let_def by simp
qed

lemma format_swan_time_total: "format_swan_time t = Inr (swan_time_of t)"
proof (cases t)
  case NaT
  then show ?thesis by (simp add: swan_time_of_def format_swan_time_NaT)
next
  case (DateTime y mo d h mi s ns)
  then show ?thesis
    by (simp only: swan_time_of_def format_swan_time_DateTime sum.case)
qed

lemma np_index_ok: "i < length xs \<Longrightarrow> np_index axis xs i = Inr (xs ! i)"
  by (simp add: np_index_def)

lemma energy_row_ok:
  "t < length e \<Longrightarrow> p < length (e ! t) \<Longrightarrow> fr < length (e ! t ! p) \<Longrightarrow>
   energy_row e t p fr = Inr (e ! t ! p ! fr)"
  by (simp add: energy_row_def np_index_ok)

lemma factor_at_ok:
  "t < length fs \<Longrightarrow> p < length (fs ! t) \<Longrightarrow> factor_at fs t p = Inr (fs ! t ! p)"
  by (simp add: factor_at_def np_index_ok)

lemma write_row_ok:
  "t < length e \<Longrightarrow> p < length (e ! t) \<Longrightarrow> fr < length (e ! t ! p) \<Longrightarrow>
   write_row oor e t p fr = (row_str oor (e ! t ! p ! fr) @ NL, Inr ())"
  by (simp add: write_row_def energy_row_ok wr_bind_lift_Inr f_write_def row_line_def)

lemma write_location_ok:
  assumes "frequency ds = Some frs" "t < length fs" "p < length (fs ! t)"
    "t < length e" "p < length (e ! t)" "length (e ! t ! p) = length frs"
  shows "write_location oor ds e fs t p =
         (unlines (location_lines oor e fs (length frs) t p), Inr ())"
proof -
  have rows: "seqs (map (write_row oor e t p) [0..<length frs]) =
      (concat (map (\<lambda>fr. row_str oor (e ! t ! p ! fr) @ NL) [0..<length frs]), Inr ())"
    by (rule seqs_map_ok) (simp add: write_row_ok assms)
  show ?thesis
    unfolding write_location_def
    apply (subst seqs_all_ok)
     apply (simp add: assms attr_Some wr_bind_lift_Inr factor_at_ok rows f_write_def)
    apply (simp add: assms attr_Some wr_bind_lift_Inr factor_at_ok rows f_write_def
        location_lines_def unlines_def comp_def)
    done
qed

lemma write_timestep_ok:
  assumes "time ds = Some tms" "frequency ds = Some frs" "t < length tms"
    "t < length fs" "t < length e" "length (fs ! t) = nloc" "length (e ! t) = nloc"
    "\<forall>b \<in> set (e ! t). length b = length frs"
  shows "write_timestep oor ds e fs nloc t =
         (unlines (timestep_lines oor tms e fs (length frs) nloc t), Inr ())"
proof -
  have locs: "seqs (map (write_location oor ds e fs t) [0..<nloc]) =
      (concat (map (\<lambda>p. unlines (location_lines oor e fs (length frs) t p)) [0..<nloc]), Inr ())"
  proof (rule seqs_map_ok)
    fix p assume "p \<in> set [0..<nloc]"
    with assms have "p < length (fs ! t)" "p < length (e ! t)" "length (e ! t ! p) = length frs"
      by auto
    with assms show "write_location oor ds e fs t p =
        (unlines (location_lines oor e fs (length frs) t p), Inr ())"
      by (intro write_location_ok) auto
  qed
  show ?thesis
    unfolding write_timestep_def
    by (simp add: assms attr_Some wr_bind_lift_Inr np_index_ok format_swan_time_total
        locs wr_bind_write wr_bind_ok timestep_lines_def unlines_Cons unlines_concat
        comp_def)
qed

section \<open>Characters of the formatted numbers\<close>

lemma plain_append [simp]: "plain (a @ b) \<longleftrightarrow> plain a \<and> plain b"
  by (auto simp: plain_def)

lemma plain_Nil [simp]: "plain []"
  by (simp add: plain_def)

lemma plain_Cons [simp]: "plain (c # s) \<longleftrightarrow> c \<in> sp2_chars \<and> plain s"
  by (auto simp: plain_def)

lemma plain_replicate [simp]: "plain (replicate k c) \<longleftrightarrow> k = 0 \<or> c \<in> sp2_chars"
  by (auto simp: plain_def)

lemma sp2_chars_simps [simp]:
  "CHR '' '' \<in> sp2_chars" "CHR ''-'' \<in> sp2_chars" "CHR ''.'' \<in> sp2_chars"
  "CHR ''+'' \<in> sp2_chars" "CHR ''e'' \<in> sp2_chars" "CHR ''i'' \<in> sp2_chars"
  "CHR ''n'' \<in> sp2_chars" "CHR ''f'' \<in> sp2_chars" "CHR ''a'' \<in> sp2_chars"
  "CHR ''N'' \<in> sp2_chars" "CHR ''0'' \<in> sp2_chars"
  "CHR 0x0A \<notin> sp2_chars" "CHR ''F'' \<notin> sp2_chars"
  by (simp_all add: sp2_chars_def)

lemma is_digit_sp2: "is_digit c \<Longrightarrow> c \<in> sp2_chars"
  by (auto simp: is_digit_def sp2_chars_def)

lemma plain_digits: "list_all is_digit s \<Longrightarrow> plain s"
  by (auto simp: plain_def list_all_iff is_digit_sp2)

lemma plain_str_nat [simp]: "plain (str_nat n)"
  by (rule plain_digits) (rule str_nat_all_digits)

lemma plain_zfill [simp]: "plain (zfill w s) \<longleftrightarrow> plain s"
  by (auto simp: zfill_def)

lemma plain_rjust [simp]: "plain (rjust w s) \<longleftrightarrow> plain s"
  by (auto simp: rjust_def)

lemma plain_str_int [simp]: "plain (str_int i)"
  by (simp add: str_int_def)

lemma plain_fmt_d [simp]: "plain (fmt_d w i)"
  by (simp add: fmt_d_def)

lemma plain_fixed_digits [simp]: "plain (fixed_digits p x)"
  by (simp add: fixed_digits_def Let_def)

lemma plain_fmt_f [simp]: "plain (fmt_f w p v)"
  by (cases v) simp_all

lemma plain_sci_digits [simp]: "plain (sci_digits p x)"
  by (simp add: sci_digits_def exp_str_def split: prod.splits)

lemma plain_fmt_e [simp]: "plain (fmt_e w p v)"
  by (cases v) simp_all

lemma plain_join: "plain sep \<Longrightarrow> \<forall>s \<in> set ss. plain s \<Longrightarrow> plain (join sep ss)"
  by (induction sep ss rule: join.induct) simp_all

lemma plain_row_str [simp]: "plain (row_str oor row)"
  unfolding row_str_def by (rule plain_join) simp_all

lemma plain_replace_char: "plain s \<Longrightarrow> plain (replace_char c s)"
  by (auto simp: plain_def replace_char_def)

lemma plain_two_digits [simp]: "plain (two_digits n)"
  by (simp add: two_digits_def)

lemma plain_c_fmt_04d [simp]: "plain (c_fmt_04d y)"
  by (simp add: c_fmt_04d_def)

lemma plain_swan_time_of [simp]: "plain (swan_time_of t)"
proof (cases t)
  case NaT
  then show ?thesis by (simp add: swan_time_of_def format_swan_time_NaT)
next
  case (DateTime y mo d h mi s ns)
  have "plain (replace_char c (two_digits h @ '':'' @ two_digits mi @ '':'' @ two_digits s))"
    if "c = CHR '':''" for c
    using that by (simp add: replace_char_def plain_replace_char [unfolded replace_char_def])
  then show ?thesis
    using DateTime
    by (simp add: swan_time_of_def format_swan_time_DateTime plain_replace_char)
qed

lemma plain_no_newline: "plain s \<Longrightarrow> no_newline s"
  by (auto simp: plain_def no_newline_def)

lemma plain_not_FACTOR: "plain s \<Longrightarrow> s \<noteq> ''FACTOR''"
  by (auto simp: plain_def)

section \<open>Lines of the written text\<close>

lemma lines_of_unlines:
  "\<forall>l \<in> set ls. no_newline l \<Longrightarrow> lines_of (unlines ls) = ls @ [[]]"
proof (induction ls)
  case Nil
  show ?case by (simp add: lines_of_def unlines_def)
next
  case (Cons l ls)
  then have "CHR 0x0A \<notin> set l" by (simp add: no_newline_def)
  then have "split_char (CHR 0x0A) l = [l]"
    by (rule split_char_absent)
  then have "split_char (CHR 0x0A) (l @ CHR 0x0A # unlines ls) = [l] @ split_char (CHR 0x0A) (unlines ls)"
    by (simp only: split_char_append)
  with Cons show ?case
    by (simp add: lines_of_def unlines_Cons NL_def)
qed

lemma nth_concat_uniform:
  "\<forall>b \<in> set bs. length b = n \<Longrightarrow> i < length bs \<Longrightarrow> j < n \<Longrightarrow>
   concat bs ! (i * n + j) = bs ! i ! j"
proof (induction bs arbitrary: i)
  case Nil
  then show ?case by simp
next
  case (Cons b bs)
  show ?case
  proof (cases i)
    case 0
    with Cons.prems show ?thesis by (simp add: nth_append)
  next
    case (Suc k)
    with Cons.prems have "concat bs ! (k * n + j) = bs ! k ! j"
      by (intro Cons.IH) auto
    moreover from Cons.prems have "length b = n" by simp
    ultimately show ?thesis using Suc
      by (simp add: nth_append add.assoc)
  qed
qed

lemma length_concat_uniform:
  "\<forall>b \<in> set bs. length b = n \<Longrightarrow> length (concat bs) = length bs * n"
  by (induction bs) simp_all

lemma take_drop_concat_uniform:
  "\<forall>b \<in> set bs. length b = n \<Longrightarrow> i < length bs \<Longrightarrow>
   take n (drop (i * n) (concat bs)) = bs ! i"
proof (induction bs arbitrary: i)
  case Nil
  then show ?case by simp
next
  case (Cons b bs)
  show ?case
  proof (cases i)
    case 0
    with Cons.prems show ?thesis by simp
  next
    case (Suc k)
    with Cons.prems have "take n (drop (k * n) (concat bs)) = bs ! k"
      by (intro Cons.IH) auto
    moreover from Cons.prems have "length b = n" by simp
    ultimately show ?thesis using Suc
      by (simp add: add.commute)
  qed
qed

lemma length_header_lines:
  "length (header_lines cfg lons lats frs drs nloc) =
   16 + min (length lons) (length lats) + length frs + length drs"
  by (simp add: header_lines_def)

lemma length_location_lines [simp]:
  "length (location_lines oor e fs nfreq t p) = 2 + nfreq"
  by (simp add: location_lines_def)

lemma length_timestep_lines [simp]:
  "length (timestep_lines oor tms e fs nfreq nloc t) = 1 + nloc * (2 + nfreq)"
  using length_concat_uniform
    [of "map (location_lines oor e fs nfreq t) [0..<nloc]" "2 + nfreq"]
  by (simp add: timestep_lines_def)

lemma timestep_lines_nth:
  assumes "p < nloc" "k < 2 + nfreq"
  shows "timestep_lines oor tms e fs nfreq nloc t ! (1 + p * (2 + nfreq) + k) =
         location_lines oor e fs nfreq t p ! k"
  using nth_concat_uniform
    [of "map (location_lines oor e fs nfreq t) [0..<nloc]" "2 + nfreq" p k] assms
  by (simp add: timestep_lines_def)

lemma sp2_lines_nth_header:
  "i < length (header_lines cfg lons lats frs drs (length lons)) \<Longrightarrow>
   sp2_lines oor cfg lons lats frs drs tms e fs ! i =
   header_lines cfg lons lats frs drs (length lons) ! i"
  by (simp add: sp2_lines_def nth_append)

lemma sp2_lines_nth_timestep:
  assumes "t < length tms" "j < 1 + length lons * (2 + length frs)"
  shows "sp2_lines oor cfg lons lats frs drs tms e fs !
           (length (header_lines cfg lons lats frs drs (length lons)) +
            t * (1 + length lons * (2 + length frs)) + j) =
         timestep_lines oor tms e fs (length frs) (length lons) t ! j"
  using nth_concat_uniform
    [of "map (timestep_lines oor tms e fs (length frs) (length lons)) [0..<length tms]"
        "1 + length lons * (2 + length frs)" t j] assms
  by (simp add: sp2_lines_def nth_append add.assoc)

lemma sp2_lines_timestep_block:
  assumes "t < length tms"
  shows "take (1 + length lons * (2 + length frs))
           (drop (length (header_lines cfg lons lats frs drs (length lons)) +
                  t * (1 + length lons * (2 + length frs)))
              (sp2_lines oor cfg lons lats frs drs tms e fs)) =
         timestep_lines oor tms e fs (length frs) (length lons) t"
  using take_drop_concat_uniform
    [of "map (timestep_lines oor tms e fs (length frs) (length lons)) [0..<length tms]"
        "1 + length lons * (2 + length frs)" t] assms
  by (simp add: sp2_lines_def drop_append flip: drop_drop)

lemma length_sp2_lines:
  "length (sp2_lines oor cfg lons lats frs drs tms e fs) =
   length (header_lines cfg lons lats frs drs (length lons)) +
   length tms * (1 + length lons * (2 + length frs))"
  using length_concat_uniform
    [of "map (timestep_lines oor tms e fs (length frs) (length lons)) [0..<length tms]"
        "1 + length lons * (2 + length frs)"]
  by (simp add: sp2_lines_def)

section \<open>Well-shaped datasets\<close>

lemma well_shaped_fields:
  assumes "well_shaped ds"
  obtains lons lats frs drs e tms where
    "longitude ds = Some lons" "latitude ds = Some lats" "frequency ds = Some frs"
    "direction ds = Some drs" "energy_density ds = Some e" "time ds = Some tms"
  using assms by (auto simp: well_shaped_def split: option.splits)

lemma well_shaped_shapes:
  assumes "well_shaped ds"
    "longitude ds = Some lons" "latitude ds = Some lats" "frequency ds = Some frs"
    "direction ds = Some drs" "energy_density ds = Some e" "time ds = Some tms"
  shows "length lats = length lons" "length e = length tms"
    "\<And>t. t < length tms \<Longrightarrow> length (e ! t) = length lons"
    "\<And>t p. t < length tms \<Longrightarrow> p < length lons \<Longrightarrow> length (e ! t ! p) = length frs"
    "\<And>t p fr. t < length tms \<Longrightarrow> p < length lons \<Longrightarrow> fr < length frs \<Longrightarrow>
        length (e ! t ! p ! fr) = length drs"
    "length (factors_of ds (length tms) (length lons)) = length tms"
    "\<And>t. t < length tms \<Longrightarrow> length (factors_of ds (length tms) (length lons) ! t) = length lons"
proof -
  from assms have a: "length lats = length lons" "length e = length tms"
    and b: "\<forall>a \<in> set e. length a = length lons \<and>
             (\<forall>b \<in> set a. length b = length frs \<and> (\<forall>row \<in> set b. length row = length drs))"
    and c: "case factor ds of None \<Rightarrow> True
            | Some fs \<Rightarrow> length fs = length tms \<and> (\<forall>a \<in> set fs. length a = length lons)"
    by (simp_all add: well_shaped_def)
  show "length lats = length lons" "length e = length tms" by fact+
  show e1: "length (e ! t) = length lons" if "t < length tms" for t
    using that a b by simp
  show e2: "length (e ! t ! p) = length frs" if "t < length tms" "p < length lons" for t p
  proof -
    from that a have "e ! t \<in> set e" by simp
    moreover from that e1 have "e ! t ! p \<in> set (e ! t)" by simp
    ultimately show ?thesis using b by blast
  qed
  show "length (e ! t ! p ! fr) = length drs"
    if "t < length tms" "p < length lons" "fr < length frs" for t p fr
  proof -
    from that a have "e ! t \<in> set e" by simp
    moreover from that e1 have "e ! t ! p \<in> set (e ! t)" by simp
    moreover from that e2 have "e ! t ! p ! fr \<in> set (e ! t ! p)" by simp
    ultimately show ?thesis using b by blast
  qed
  show "length (factors_of ds (length tms) (length lons)) = length tms"
    using c by (simp add: factors_of_def split: option.splits)
  show "length (factors_of ds (length tms) (length lons) ! t) = length lons"
    if "t < length tms" for t
    using c that by (simp add: factors_of_def split: option.splits)
qed

lemma factor_in_variables: "''factor'' \<in> set (variables ds) \<longleftrightarrow> factor ds \<noteq> None"
  by (simp add: variables_def)

lemma prepare_ok:
  assumes "longitude ds = Some lons" "energy_density ds = Some e" "time ds = Some tms"
  shows "prepare ds = Inr (e, factors_of ds (length tms) (length lons), length lons)"
  using assms
  by (auto simp: prepare_def attr_Some factor_in_variables factors_of_def)

lemma write_sp2_ok:
  assumes "well_shaped ds"
    "longitude ds = Some lons" "latitude ds = Some lats" "frequency ds = Some frs"
    "direction ds = Some drs" "energy_density ds = Some e" "time ds = Some tms"
  shows "write_sp2 oor cfg ds e (factors_of ds (length tms) (length lons)) (length lons) =
         (unlines (sp2_lines oor cfg lons lats frs drs tms e
                     (factors_of ds (length tms) (length lons))), Inr ())"
proof -
  let ?fs = "factors_of ds (length tms) (length lons)"
  note sh = well_shaped_shapes [OF assms]
  have steps: "seqs (map (write_timestep oor ds e ?fs (length lons)) [0..<length tms]) =
      (concat (map (\<lambda>t. unlines (timestep_lines oor tms e ?fs (length frs) (length lons) t))
                 [0..<length tms]), Inr ())"
  proof (rule seqs_map_ok)
    fix t assume "t \<in> set [0..<length tms]"
    then have t: "t < length tms" by simp
    have "\<forall>b \<in> set (e ! t). length b = length frs"
      using sh(3) [OF t] sh(4) [OF t] by (auto simp: in_set_conv_nth)
    with t sh assms
    show "write_timestep oor ds e ?fs (length lons) t =
        (unlines (timestep_lines oor tms e ?fs (length frs) (length lons) t), Inr ())"
      by (intro write_timestep_ok) auto
  qed
  show ?thesis
    unfolding write_sp2_def
    by (simp add: write_sp2_header_ok [OF assms(2-5)] assms attr_Some wr_bind_lift_Inr steps
        wr_bind_ok sp2_lines_def unlines_append unlines_concat comp_def)
qed

lemma sp2_text_ok:
  assumes "well_shaped ds"
    "longitude ds = Some lons" "latitude ds = Some lats" "frequency ds = Some frs"
    "direction ds = Some drs" "energy_density ds = Some e" "time ds = Some tms"
  shows "sp2_text oor cfg ds =
         unlines (sp2_lines oor cfg lons lats frs drs tms e
                    (factors_of ds (length tms) (length lons)))"
  by (simp add: sp2_text_def prepare_ok [OF assms(2,6,7)] write_sp2_ok [OF assms])

lemma no_newline_literal:
  "no_newline (a @ b) \<longleftrightarrow> no_newline a \<and> no_newline b"
  by (auto simp: no_newline_def)

lemma no_newline_Cons:
  "no_newline (c # s) \<longleftrightarrow> c \<noteq> CHR 0x0A \<and> no_newline s" "no_newline []"
  by (auto simp: no_newline_def)

lemma no_newline_header_lines:
  assumes "valid_config cfg"
  shows "\<forall>l \<in> set (header_lines cfg lons lats frs drs nloc). no_newline l"
proof -
  have p: "no_newline (fmt_d w i)" "no_newline (fmt_f w' q v)" "no_newline (fmt_e w' q v)"
    for w i w' q v
    by (simp_all add: plain_no_newline)
  from assms have c: "no_newline (swan_version cfg)" "no_newline (project_name cfg)"
    "no_newline (run_number cfg)"
    by (simp_all add: valid_config_def)
  show ?thesis
    unfolding header_lines_def
    by (auto simp: no_newline_literal no_newline_Cons p c)
qed

lemma no_newline_timestep_lines:
  "\<forall>l \<in> set (timestep_lines oor tms e fs nfreq nloc t). no_newline l"
proof -
  show ?thesis
    by (auto simp: timestep_lines_def location_lines_def no_newline_literal plain_no_newline
        no_newline_Cons)
qed

lemma no_newline_sp2_lines:
  assumes "valid_config cfg"
  shows "\<forall>l \<in> set (sp2_lines oor cfg lons lats frs drs tms e fs). no_newline l"
  using no_newline_header_lines [OF assms] no_newline_timestep_lines
  by (auto simp: sp2_lines_def)

lemma lines_of_sp2_text:
  assumes "well_shaped ds" "valid_config cfg"
    "longitude ds = Some lons" "latitude ds = Some lats" "frequency ds = Some frs"
    "direction ds = Some drs" "energy_density ds = Some e" "time ds = Some tms"
  shows "lines_of (sp2_text oor cfg ds) =
         sp2_lines oor cfg lons lats frs drs tms e (factors_of ds (length tms) (length lons)) @ [[]]"
  by (simp only: sp2_text_ok [OF assms(1,3-8)] lines_of_unlines [OF no_newline_sp2_lines [OF assms(2)]])

section \<open>Positions in the header and in a time step\<close>

lemma hd_fields_of_count: "hd (fields_of (fmt_d w i @ CHR '' '' # rest)) = str_int i"
  by (simp add: fields_append fmt_d_def fields_rjust str_int_nonempty str_int_no_space)

lemma header_count_lines:
  assumes "length lats = length lons"
  shows "read_int (hd (fields_of (header_lines cfg lons lats frs drs n ! 6))) = int n"
    and "read_int (hd (fields_of (header_lines cfg lons lats frs drs n ! (8 + length lons)))) =
         int (length frs)"
    and "read_int (hd (fields_of
           (header_lines cfg lons lats frs drs n ! (10 + length lons + length frs)))) =
         int (length drs)"
proof -
  have a: "header_lines cfg lons lats frs drs n ! 6 =
      fmt_d 6 (int n) @ ''                                  number of locations''"
    by (simp add: header_lines_def)
  have b: "header_lines cfg lons lats frs drs n ! (8 + length lons) =
      fmt_d 6 (int (length frs)) @ ''                                  number of frequencies''"
    by (simp add: header_lines_def nth_append assms)
  have c: "header_lines cfg lons lats frs drs n ! (10 + length lons + length frs) =
      fmt_d 6 (int (length drs)) @ ''                                  number of directions''"
    by (simp add: header_lines_def nth_append assms)
  show "read_int (hd (fields_of (header_lines cfg lons lats frs drs n ! 6))) = int n"
    unfolding a by (simp add: hd_fields_of_count read_int_str_int)
  show "read_int (hd (fields_of (header_lines cfg lons lats frs drs n ! (8 + length lons)))) =
         int (length frs)"
    unfolding b by (simp add: hd_fields_of_count read_int_str_int)
  show "read_int (hd (fields_of
           (header_lines cfg lons lats frs drs n ! (10 + length lons + length frs)))) =
         int (length drs)"
    unfolding c by (simp add: hd_fields_of_count read_int_str_int)
qed

lemma header_quantity_lines:
  assumes "length lats = length lons"
  shows "header_lines cfg lons lats frs drs n ! (11 + length lons + length frs + length drs) =
         ''QUANT''"
    and "header_lines cfg lons lats frs drs n ! (12 + length lons + length frs + length drs) =
         ''     1                                  number of quantities in table''"
    and "header_lines cfg lons lats frs drs n ! (15 + length lons + length frs + length drs) =
         fmt_e 10 4 (exception_value cfg) @ ''                          exception value''"
  by (simp_all add: header_lines_def nth_append assms)

lemma quantity_count_reads_one:
  "read_int (hd (fields_of
     ''     1                                  number of quantities in table'')) = 1"
proof -
  have "''     1                                  number of quantities in table'' =
      fmt_d 6 1 @ CHR '' '' # ''                                 number of quantities in table''"
    by (simp add: fmt_d_def rjust_def str_int_def str_nat_digit digit_char_def eval_nat_numeral)
  then show ?thesis
    using read_int_str_int [of 1] by (simp only: hd_fields_of_count)
qed

lemma filter_concat_one:
  "\<forall>b \<in> set bs. length (filter P b) = 1 \<Longrightarrow> length (filter P (concat bs)) = length bs"
  by (induction bs) simp_all

lemma time_line_not_FACTOR: "s @ ''                         date and time'' \<noteq> ''FACTOR''"
proof
  assume "s @ ''                         date and time'' = ''FACTOR''"
  then have "length (s @ ''                         date and time'') = length ''FACTOR''"
    by (rule arg_cong)
  then show False by simp
qed

lemma location_lines_FACTOR:
  "length (filter (\<lambda>l. l = ''FACTOR'') (location_lines oor e fs nfreq t p)) = 1"
proof -
  have "filter (\<lambda>l. l = ''FACTOR'') (map (\<lambda>fr. row_str oor (e ! t ! p ! fr)) [0..<nfreq]) = []"
    by (auto simp: filter_empty_conv dest: plain_not_FACTOR [OF plain_row_str, THEN notE])
  moreover have "fmt_e 0 16 (fs ! t ! p) \<noteq> ''FACTOR''"
    by (rule plain_not_FACTOR) simp
  ultimately show ?thesis
    by (simp add: location_lines_def)
qed

lemma timestep_lines_FACTOR:
  "length (filter (\<lambda>l. l = ''FACTOR'') (timestep_lines oor tms e fs nfreq nloc t)) = nloc"
  using filter_concat_one
    [of "map (location_lines oor e fs nfreq t) [0..<nloc]" "\<lambda>l. l = ''FACTOR''"]
  by (simp add: timestep_lines_def time_line_not_FACTOR location_lines_FACTOR)

lemma location_lines_nth:
  "location_lines oor e fs nfreq t p ! 0 = ''FACTOR''"
  "location_lines oor e fs nfreq t p ! 1 = fmt_e 0 16 (fs ! t ! p)"
  "fr < nfreq \<Longrightarrow> location_lines oor e fs nfreq t p ! (2 + fr) = row_str oor (e ! t ! p ! fr)"
  by (simp_all add: location_lines_def)

section \<open>Lines of the file of a well-shaped dataset\<close>

lemma text_lines:
  assumes "well_shaped ds" "valid_config cfg"
    "longitude ds = Some lons" "latitude ds = Some lats" "frequency ds = Some frs"
    "direction ds = Some drs" "energy_density ds = Some e" "time ds = Some tms"
  defines "fs \<equiv> factors_of ds (length tms) (length lons)"
    and "H \<equiv> 16 + length lons + length frs + length drs"
    and "B \<equiv> 1 + length lons * (2 + length frs)"
  shows "\<And>i. i < H \<Longrightarrow>
           lines_of (sp2_text oor cfg ds) ! i = header_lines cfg lons lats frs drs (length lons) ! i"
    and "\<And>t p k. t < length tms \<Longrightarrow> p < length lons \<Longrightarrow> k < 2 + length frs \<Longrightarrow>
           lines_of (sp2_text oor cfg ds) ! (H + t * B + (1 + p * (2 + length frs) + k)) =
           location_lines oor e fs (length frs) t p ! k"
    and "\<And>t. t < length tms \<Longrightarrow>
           take B (drop (H + t * B) (lines_of (sp2_text oor cfg ds))) =
           timestep_lines oor tms e fs (length frs) (length lons) t"
    and "length (lines_of (sp2_text oor cfg ds)) = H + length tms * B + 1"
proof -
  let ?ls = "sp2_lines oor cfg lons lats frs drs tms e fs"
  have ll: "length lats = length lons"
    by (rule well_shaped_shapes(1) [OF assms(1,3-8)])
  have L: "lines_of (sp2_text oor cfg ds) = ?ls @ [[]]"
    unfolding fs_def by (rule lines_of_sp2_text [OF assms(1-8)])
  have Hh: "length (header_lines cfg lons lats frs drs (length lons)) = H"
    by (simp add: length_header_lines ll H_def)
  have len: "length ?ls = H + length tms * B"
    by (simp add: length_sp2_lines Hh B_def)
  show "lines_of (sp2_text oor cfg ds) ! i = header_lines cfg lons lats frs drs (length lons) ! i"
    if "i < H" for i
    using that sp2_lines_nth_header [of i cfg lons lats frs drs oor tms e fs] len
    by (simp add: L nth_append Hh)
  show "lines_of (sp2_text oor cfg ds) ! (H + t * B + (1 + p * (2 + length frs) + k)) =
        location_lines oor e fs (length frs) t p ! k"
    if "t < length tms" "p < length lons" "k < 2 + length frs" for t p k
  proof -
    let ?j = "1 + p * (2 + length frs) + k"
    from that have "p * (2 + length frs) + k < length lons * (2 + length frs)"
    proof -
      from that(2) have "Suc p \<le> length lons" by simp
      then have "Suc p * (2 + length frs) \<le> length lons * (2 + length frs)"
        by (rule mult_le_mono1)
      with that(3) show ?thesis by simp
    qed
    then have j: "?j < B" by (simp add: B_def)
    from that(1) have "Suc t \<le> length tms" by simp
    then have "Suc t * B \<le> length tms * B" by (rule mult_le_mono1)
    with j have "H + t * B + ?j < length ?ls" by (simp add: len)
    then have "lines_of (sp2_text oor cfg ds) ! (H + t * B + ?j) = ?ls ! (H + t * B + ?j)"
      by (simp add: L nth_append)
    also have "\<dots> = timestep_lines oor tms e fs (length frs) (length lons) t ! ?j"
      using sp2_lines_nth_timestep [OF that(1), of ?j lons frs oor cfg lats drs e fs] j
      by (simp add: Hh B_def)
    also have "\<dots> = location_lines oor e fs (length frs) t p ! k"
      by (rule timestep_lines_nth [OF that(2,3)])
    finally show ?thesis .
  qed
  show "take B (drop (H + t * B) (lines_of (sp2_text oor cfg ds))) =
        timestep_lines oor tms e fs (length frs) (length lons) t"
    if "t < length tms" for t
  proof -
    from that have "Suc t \<le> length tms" by simp
    then have "Suc t * B \<le> length tms * B" by (rule mult_le_mono1)
    then have "H + t * B + B \<le> length ?ls" by (simp add: len)
    then have "take B (drop (H + t * B) (?ls @ [[]])) = take B (drop (H + t * B) ?ls)"
      by simp
    with sp2_lines_timestep_block [OF that, of lons frs cfg lats drs oor e fs]
    show ?thesis by (simp add: L Hh B_def)
  qed
  show "length (lines_of (sp2_text oor cfg ds)) = H + length tms * B + 1"
    by (simp add: L len)
qed

section \<open>The example dataset\<close>

lemma example_well_shaped: "well_shaped example_ds"
  by (simp add: well_shaped_def example_ds_def example_energy_def)

lemma example_config_valid: "valid_config (CONFIG cwd)"
  by (simp add: valid_config_def CONFIG_def no_newline_def)

lemma example_fields:
  "longitude example_ds = Some [Fin (- 17 / 2), Fin (- 33 / 4)]"
  "latitude example_ds = Some [Fin 43, Fin (87 / 2)]"
  "frequency example_ds = Some [Fin (1 / 16), Fin (1 / 8)]"
  "direction example_ds = Some [Fin 0, Fin 90, Fin 180]"
  "energy_density example_ds = Some example_energy"
  "time example_ds = Some [DateTime 2024 3 15 6 0 30 750000000]"
  by (simp_all add: example_ds_def)

section \<open>Counts in the header and blocks in the body\<close>

text \<open>
  Claim C7. For a well-shaped dataset and a configuration without line breaks, the file
  is read back line by line. The first field of line 6 is the number of longitudes, the
  first field of the line after the frequency tag is the number of frequencies and the
  first field of the line after the direction tag is the number of directions. The
  header has \<open>16 + L + F + D\<close> lines and every time step has \<open>1 + L * (2 + F)\<close> lines;
  in the lines of each time step the tag \<open>FACTOR\<close> stands once per location, at the
  head of that location's block, and nowhere else.
\<close>

theorem C7_counts_and_blocks:
  assumes "well_shaped ds" "valid_config cfg"
    "longitude ds = Some lons" "latitude ds = Some lats" "frequency ds = Some frs"
    "direction ds = Some drs" "energy_density ds = Some e" "time ds = Some tms"
  shows "read_int (hd (fields_of (lines_of (sp2_text oor cfg ds) ! 6))) = int (length lons) \<and>
         read_int (hd (fields_of (lines_of (sp2_text oor cfg ds) ! (8 + length lons)))) =
           int (length frs) \<and>
         read_int (hd (fields_of
            (lines_of (sp2_text oor cfg ds) ! (10 + length lons + length frs)))) =
           int (length drs) \<and>
         length (lines_of (sp2_text oor cfg ds)) =
           16 + length lons + length frs + length drs +
           length tms * (1 + length lons * (2 + length frs)) + 1 \<and>
         (\<forall>t < length tms.
            length (filter (\<lambda>l. l = ''FACTOR'')
              (take (1 + length lons * (2 + length frs))
                 (drop (16 + length lons + length frs + length drs +
                        t * (1 + length lons * (2 + length frs)))
                    (lines_of (sp2_text oor cfg ds))))) = length lons \<and>
            (\<forall>p < length lons.
               lines_of (sp2_text oor cfg ds) !
                 (16 + length lons + length frs + length drs +
                  t * (1 + length lons * (2 + length frs)) +
                  (1 + p * (2 + length frs) + 0)) = ''FACTOR''))"
proof -
  note tl = text_lines [OF assms, where oor = oor]
  have ll: "length lats = length lons"
    by (rule well_shaped_shapes(1) [OF assms(1,3-8)])
  have a: "read_int (hd (fields_of (lines_of (sp2_text oor cfg ds) ! 6))) = int (length lons)"
    using tl(1) [of 6] header_count_lines(1) [OF ll, of cfg frs drs "length lons"] by simp
  have b: "read_int (hd (fields_of (lines_of (sp2_text oor cfg ds) ! (8 + length lons)))) =
      int (length frs)"
    using tl(1) [of "8 + length lons"] header_count_lines(2) [OF ll, of cfg frs drs "length lons"]
    by simp
  have c: "read_int (hd (fields_of
      (lines_of (sp2_text oor cfg ds) ! (10 + length lons + length frs)))) = int (length drs)"
    using tl(1) [of "10 + length lons + length frs"]
      header_count_lines(3) [OF ll, of cfg frs drs "length lons"]
    by simp
  have d: "length (filter (\<lambda>l. l = ''FACTOR'')
              (take (1 + length lons * (2 + length frs))
                 (drop (16 + length lons + length frs + length drs +
                        t * (1 + length lons * (2 + length frs)))
                    (lines_of (sp2_text oor cfg ds))))) = length lons"
    if "t < length tms" for t
    by (simp only: tl(3) [OF that] timestep_lines_FACTOR)
  have e: "lines_of (sp2_text oor cfg ds) !
                 (16 + length lons + length frs + length drs +
                  t * (1 + length lons * (2 + length frs)) +
                  (1 + p * (2 + length frs) + 0)) = ''FACTOR''"
    if "t < length tms" "p < length lons" for t p
    using tl(2) [OF that, of 0] by (simp add: location_lines_nth(1))
  from a b c d e tl(4) show ?thesis by blast
qed

theorem C7_counts_and_blocks_witness:
  "well_shaped example_ds \<and> valid_config (CONFIG ''/data'') \<and>
   read_int (hd (fields_of (lines_of (sp2_text oor_x86 (CONFIG ''/data'') example_ds) ! 6))) = 2 \<and>
   read_int (hd (fields_of (lines_of (sp2_text oor_x86 (CONFIG ''/data'') example_ds) ! 10))) = 2 \<and>
   read_int (hd (fields_of (lines_of (sp2_text oor_x86 (CONFIG ''/data'') example_ds) ! 14))) = 3 \<and>
   length (lines_of (sp2_text oor_x86 (CONFIG ''/data'') example_ds)) = 33 \<and>
   lines_of (sp2_text oor_x86 (CONFIG ''/data'') example_ds) ! 24 = ''FACTOR'' \<and>
   lines_of (sp2_text oor_x86 (CONFIG ''/data'') example_ds) ! 28 = ''FACTOR''"
proof -
  note c7 = C7_counts_and_blocks [OF example_well_shaped example_config_valid example_fields,
      of oor_x86 "''/data''"]
  from c7 have q:
    "\<forall>p<2. lines_of (sp2_text oor_x86 (CONFIG ''/data'') example_ds) ! (24 + p * 4) = ''FACTOR''"
    by simp
  have "lines_of (sp2_text oor_x86 (CONFIG ''/data'') example_ds) ! 24 = ''FACTOR''"
    "lines_of (sp2_text oor_x86 (CONFIG ''/data'') example_ds) ! 28 = ''FACTOR''"
    using q [rule_format, of 0] q [rule_format, of 1] by simp_all
  with c7 example_well_shaped example_config_valid show ?thesis
    by simp
qed

section \<open>The energy matrix\<close>

lemma trunc_rat_numeral [simp]:
  "trunc_rat (numeral k) = numeral k" "trunc_rat 0 = 0" "trunc_rat 1 = 1"
  using trunc_rat_of_int [of "numeral k"] trunc_rat_of_int [of 0] trunc_rat_of_int [of 1]
  by simp_all

lemma rhe_one [simp]: "round_half_even 1 = 1"
  using rhe_of_int [of 1] by simp

lemma length_fmt_d: "length (fmt_d w i) = max w (length (str_int i))"
  by (simp add: fmt_d_def length_rjust)

text \<open>
  Claim C8, as amended. For every time step and location of a well-shaped dataset the
  matrix takes one line per frequency, in array order, right after the factor value.
  A line holds one integer per direction, in array order, separated by single spaces:
  its fields read back as the converted row. An integer is padded on the left to at
  least six characters; it takes exactly six only between \<open>-99999\<close> and \<open>999999\<close>, and
  a larger one takes as many characters as it has.
\<close>

theorem C8_matrix_lines:
  assumes "well_shaped ds" "valid_config cfg"
    "longitude ds = Some lons" "latitude ds = Some lats" "frequency ds = Some frs"
    "direction ds = Some drs" "energy_density ds = Some e" "time ds = Some tms"
    and "t < length tms" "p < length lons" "fr < length frs"
  shows "lines_of (sp2_text oor cfg ds) !
           (16 + length lons + length frs + length drs +
            t * (1 + length lons * (2 + length frs)) +
            (1 + p * (2 + length frs) + (2 + fr))) = row_str oor (e ! t ! p ! fr) \<and>
         row_str oor (e ! t ! p ! fr) =
           join '' '' (map (\<lambda>val. fmt_d 6 (sint val)) (row_ints oor (e ! t ! p ! fr))) \<and>
         length (fields_of (row_str oor (e ! t ! p ! fr))) = length drs \<and>
         map read_int (fields_of (row_str oor (e ! t ! p ! fr))) =
           map sint (row_ints oor (e ! t ! p ! fr)) \<and>
         (\<forall>val \<in> set (row_ints oor (e ! t ! p ! fr)).
            length (fmt_d 6 (sint val)) = max 6 (length (str_int (sint val))) \<and>
            (length (fmt_d 6 (sint val)) = 6 \<longleftrightarrow> - 99999 \<le> sint val \<and> sint val \<le> 999999))"
proof -
  note tl = text_lines [OF assms(1-8), where oor = oor]
  from assms(11) have k: "2 + fr < 2 + length frs" by simp
  have a: "lines_of (sp2_text oor cfg ds) !
           (16 + length lons + length frs + length drs +
            t * (1 + length lons * (2 + length frs)) +
            (1 + p * (2 + length frs) + (2 + fr))) = row_str oor (e ! t ! p ! fr)"
    using tl(2) [OF assms(9,10) k] location_lines_nth(3) [OF assms(11)] by simp
  have b: "length (fields_of (row_str oor (e ! t ! p ! fr))) = length drs"
    using well_shaped_shapes(5) [OF assms(1,3-8) assms(9,10,11)]
    by (simp add: fields_row_str)
  have c: "map read_int (fields_of (row_str oor (e ! t ! p ! fr))) =
      map sint (row_ints oor (e ! t ! p ! fr))"
    by (simp add: fields_row_str read_int_str_int comp_def)
  have d: "row_str oor (e ! t ! p ! fr) =
      join '' '' (map (\<lambda>val. fmt_d 6 (sint val)) (row_ints oor (e ! t ! p ! fr)))"
    by (simp add: row_str_def)
  have w: "\<forall>val \<in> set (row_ints oor (e ! t ! p ! fr)).
      length (fmt_d 6 (sint val)) = max 6 (length (str_int (sint val))) \<and>
      (length (fmt_d 6 (sint val)) = 6 \<longleftrightarrow> - 99999 \<le> sint val \<and> sint val \<le> 999999)"
    by (intro ballI conjI length_fmt_d length_fmt_d6)
  from a d b c w show ?thesis
    by (intro conjI)
qed

theorem C8_matrix_lines_witness:
  "well_shaped example_ds \<and> valid_config (CONFIG ''/data'') \<and>
   lines_of (sp2_text oor_x86 (CONFIG ''/data'') example_ds) ! 26 =
     row_str oor_x86 [Fin (5 / 2), NaN, Fin (7 / 2)] \<and>
   map read_int (fields_of (row_str oor_x86 [Fin (5 / 2), NaN, Fin (7 / 2)])) =
     map sint (row_ints oor_x86 [Fin (5 / 2), NaN, Fin (7 / 2)]) \<and>
   length (fields_of (row_str oor_x86 [Fin (5 / 2), NaN, Fin (7 / 2)])) = 3"
proof -
  have i: "(0::nat) < length [DateTime 2024 3 15 6 0 30 750000000]"
    "(0::nat) < length [Fin (- 17 / 2), Fin (- 33 / 4)]"
    "(0::nat) < length [Fin (1 / 16), Fin (1 / 8)]"
    by simp_all
  have r: "example_energy ! 0 ! 0 ! 0 = [Fin (5 / 2), NaN, Fin (7 / 2)]"
    by (simp add: example_energy_def)
  note c8 = C8_matrix_lines [OF example_well_shaped example_config_valid example_fields i,
      of oor_x86 "''/data''"]
  have a: "lines_of (sp2_text oor_x86 (CONFIG ''/data'') example_ds) ! 26 =
      row_str oor_x86 [Fin (5 / 2), NaN, Fin (7 / 2)]"
    using c8 [THEN conjunct1] by (simp add: r)
  have b: "length (fields_of (row_str oor_x86 [Fin (5 / 2), NaN, Fin (7 / 2)])) = 3"
    using c8 [THEN conjunct2, THEN conjunct2, THEN conjunct1] by (simp add: r)
  have c: "map read_int (fields_of (row_str oor_x86 [Fin (5 / 2), NaN, Fin (7 / 2)])) =
      map sint (row_ints oor_x86 [Fin (5 / 2), NaN, Fin (7 / 2)])"
    using c8 [THEN conjunct2, THEN conjunct2, THEN conjunct2, THEN conjunct1] by (simp add: r)
  from a b c example_well_shaped example_config_valid show ?thesis
    by (intro conjI)
qed

text \<open>
  The claim as stated fails for an integer of more than six characters: the energy row
  \<open>0, 1, 1000000\<close> is written with a third field of seven characters, so the line is
  21 characters long instead of three times six plus two separators.
\<close>

theorem C8_counterexample:
  "row_str oor_x86 [Fin 0, Fin 1, Fin 1000000] = ''     0      1 1000000'' \<and>
   length (fmt_d 6 (sint (row_ints oor_x86 [Fin 0, Fin 1, Fin 1000000] ! 2))) \<noteq> 6"
proof -
  have s: "sint (word_of_int 1000000 :: 64 word) = 1000000"
    "sint (word_of_int 1 :: 64 word) = 1"
    by (rule sint_in_range; simp)+
  have i: "row_ints oor_x86 [Fin 0, Fin 1, Fin 1000000] = [0, 1, word_of_int 1000000]"
    by (simp add: row_ints_def astype_int_def np_round_def nan_to_num_def Let_def)
  have d: "str_nat 1000000 = ''1000000''"
    by (simp add: str_nat.simps digit_char_def)
  have p5: "replicate 5 CHR '' '' = ''     ''"
    by (simp add: eval_nat_numeral)
  have f: "fmt_d 6 0 = ''     0''" "fmt_d 6 1 = ''     1''" "fmt_d 6 1000000 = ''1000000''"
    by (simp_all add: fmt_d_def rjust_def str_int_def str_nat_digit digit_char_def d p5)
  show ?thesis
    using s by (simp add: row_str_def i f)
qed

section \<open>The factor and the exception value\<close>

text \<open>
  Claim C4, as amended. For every time step and location of a well-shaped dataset, the
  line after the \<open>FACTOR\<close> tag is the factor in scientific notation with sixteen digits
  after the decimal point: a finite factor has seventeen significant digits. Without a
  factor variable the factor is one.
\<close>

theorem C4_factor_line:
  assumes "well_shaped ds" "valid_config cfg"
    "longitude ds = Some lons" "latitude ds = Some lats" "frequency ds = Some frs"
    "direction ds = Some drs" "energy_density ds = Some e" "time ds = Some tms"
    and "t < length tms" "p < length lons"
  shows "lines_of (sp2_text oor cfg ds) !
           (16 + length lons + length frs + length drs +
            t * (1 + length lons * (2 + length frs)) +
            (1 + p * (2 + length frs) + 0)) = ''FACTOR'' \<and>
         lines_of (sp2_text oor cfg ds) !
           (16 + length lons + length frs + length drs +
            t * (1 + length lons * (2 + length frs)) +
            (1 + p * (2 + length frs) + 1)) =
           fmt_e 0 16 (factors_of ds (length tms) (length lons) ! t ! p) \<and>
         (is_finite (factors_of ds (length tms) (length lons) ! t ! p) \<longrightarrow>
            significant_digits (fmt_e 0 16 (factors_of ds (length tms) (length lons) ! t ! p)) = 17) \<and>
         (factor ds = None \<longrightarrow>
            fmt_e 0 16 (factors_of ds (length tms) (length lons) ! t ! p) =
              ''1.0000000000000000e+00'')"
proof -
  note tl = text_lines [OF assms(1-8), where oor = oor]
  have a: "lines_of (sp2_text oor cfg ds) !
           (16 + length lons + length frs + length drs +
            t * (1 + length lons * (2 + length frs)) +
            (1 + p * (2 + length frs) + 0)) = ''FACTOR''"
    using tl(2) [OF assms(9,10), of 0] by (simp add: location_lines_nth(1))
  have b: "lines_of (sp2_text oor cfg ds) !
           (16 + length lons + length frs + length drs +
            t * (1 + length lons * (2 + length frs)) +
            (1 + p * (2 + length frs) + 1)) =
           fmt_e 0 16 (factors_of ds (length tms) (length lons) ! t ! p)"
    using tl(2) [OF assms(9,10), of 1] location_lines_nth(2) [of oor e "factors_of ds (length tms) (length lons)" "length frs" t p]
    by simp
  have c: "significant_digits (fmt_e 0 16 v) = 17" if "is_finite v" for v
    using significant_digits_fmt_e [OF that, of 0 16] by simp
  have d: "fmt_e 0 16 (factors_of ds (length tms) (length lons) ! t ! p) =
      ''1.0000000000000000e+00''" if "factor ds = None"
    using that assms(9,10) by (simp add: factors_of_def fmt_e_one del: fmt_e.simps)
  from a b c d show ?thesis by blast
qed

theorem C4_factor_line_witness:
  "well_shaped example_ds \<and> valid_config (CONFIG ''/data'') \<and>
   lines_of (sp2_text oor_x86 (CONFIG ''/data'') example_ds) ! 28 = ''FACTOR'' \<and>
   lines_of (sp2_text oor_x86 (CONFIG ''/data'') example_ds) ! 29 = ''1.0000000000000000e+00'' \<and>
   significant_digits (lines_of (sp2_text oor_x86 (CONFIG ''/data'') example_ds) ! 29) = 17"
proof -
  have i: "(0::nat) < length [DateTime 2024 3 15 6 0 30 750000000]"
    "(1::nat) < length [Fin (- 17 / 2), Fin (- 33 / 4)]"
    by simp_all
  note c4 = C4_factor_line [OF example_well_shaped example_config_valid example_fields i,
      of oor_x86 "''/data''"]
  have n: "factor example_ds = None"
    by (simp add: example_ds_def)
  have f: "factors_of example_ds (length [DateTime 2024 3 15 6 0 30 750000000])
      (length [Fin (- 17 / 2), Fin (- 33 / 4)]) ! 0 ! 1 = Fin 1"
    by (simp add: factors_of_def n)
  have a: "lines_of (sp2_text oor_x86 (CONFIG ''/data'') example_ds) ! 28 = ''FACTOR''"
    using c4 [THEN conjunct1] by simp
  have e: "fmt_e 0 16 (factors_of example_ds (length [DateTime 2024 3 15 6 0 30 750000000])
      (length [Fin (- 17 / 2), Fin (- 33 / 4)]) ! 0 ! 1) = ''1.0000000000000000e+00''"
    using c4 [THEN conjunct2, THEN conjunct2, THEN conjunct2] n by blast
  have b: "lines_of (sp2_text oor_x86 (CONFIG ''/data'') example_ds) ! 29 =
      ''1.0000000000000000e+00''"
    using c4 [THEN conjunct2, THEN conjunct1] unfolding e by simp
  have "is_finite (factors_of example_ds (length [DateTime 2024 3 15 6 0 30 750000000])
      (length [Fin (- 17 / 2), Fin (- 33 / 4)]) ! 0 ! 1)"
    unfolding f by (simp add: is_finite_def)
  with c4 [THEN conjunct2, THEN conjunct2, THEN conjunct1]
  have "significant_digits (fmt_e 0 16 (factors_of example_ds
      (length [DateTime 2024 3 15 6 0 30 750000000])
      (length [Fin (- 17 / 2), Fin (- 33 / 4)]) ! 0 ! 1)) = 17"
    by blast
  then have c: "significant_digits (lines_of (sp2_text oor_x86 (CONFIG ''/data'') example_ds) ! 29) = 17"
    unfolding e b .
  from a b c example_well_shaped example_config_valid show ?thesis
    by (intro conjI)
qed

text \<open>
  The claim as stated fails already for the default factor: one is written with
  seventeen significant digits, not sixteen.
\<close>

theorem C4_counterexample:
  "fmt_e 0 16 (Fin 1) = ''1.0000000000000000e+00'' \<and>
   significant_digits (fmt_e 0 16 (Fin 1)) \<noteq> 16"
proof -
  have "is_finite (Fin 1)" by (simp add: is_finite_def)
  from significant_digits_fmt_e [OF this, of 0 16] fmt_e_one show ?thesis
    by simp
qed

text \<open>
  Claim C5, as amended. In the header of a well-shaped dataset the quantity block starts
  with the tag \<open>QUANT\<close>, the next line reads the fixed count 1, and the last line of the
  header is the exception value in scientific notation with four digits after the
  decimal point: a finite exception value has five significant digits.
\<close>

theorem C5_quantity_block:
  assumes "well_shaped ds" "valid_config cfg"
    "longitude ds = Some lons" "latitude ds = Some lats" "frequency ds = Some frs"
    "direction ds = Some drs" "energy_density ds = Some e" "time ds = Some tms"
  shows "lines_of (sp2_text oor cfg ds) ! (11 + length lons + length frs + length drs) =
           ''QUANT'' \<and>
         read_int (hd (fields_of
            (lines_of (sp2_text oor cfg ds) ! (12 + length lons + length frs + length drs)))) = 1 \<and>
         lines_of (sp2_text oor cfg ds) ! (15 + length lons + length frs + length drs) =
           fmt_e 10 4 (exception_value cfg) @ ''                          exception value'' \<and>
         (is_finite (exception_value cfg) \<longrightarrow>
            significant_digits (fmt_e 10 4 (exception_value cfg)) = 5)"
proof -
  note tl = text_lines [OF assms(1-8), where oor = oor]
  have ll: "length lats = length lons"
    by (rule well_shaped_shapes(1) [OF assms(1,3-8)])
  note q = header_quantity_lines [OF ll, of cfg frs drs "length lons"]
  have a: "lines_of (sp2_text oor cfg ds) ! (11 + length lons + length frs + length drs) =
      ''QUANT''"
    using tl(1) [of "11 + length lons + length frs + length drs"] q(1) by simp
  have "lines_of (sp2_text oor cfg ds) ! (12 + length lons + length frs + length drs) =
      ''     1                                  number of quantities in table''"
    using tl(1) [of "12 + length lons + length frs + length drs"] q(2) by simp
  then have b: "read_int (hd (fields_of
      (lines_of (sp2_text oor cfg ds) ! (12 + length lons + length frs + length drs)))) = 1"
    by (simp only: quantity_count_reads_one)
  have c: "lines_of (sp2_text oor cfg ds) ! (15 + length lons + length frs + length drs) =
      fmt_e 10 4 (exception_value cfg) @ ''                          exception value''"
    using tl(1) [of "15 + length lons + length frs + length drs"] q(3) by simp
  have d: "significant_digits (fmt_e 10 4 v) = 5" if "is_finite v" for v
    using significant_digits_fmt_e [OF that, of 10 4] by simp
  from a b c d show ?thesis by blast
qed

theorem C5_quantity_block_witness:
  "well_shaped example_ds \<and> valid_config (CONFIG ''/data'') \<and>
   lines_of (sp2_text oor_x86 (CONFIG ''/data'') example_ds) ! 18 = ''QUANT'' \<and>
   read_int (hd (fields_of (lines_of (sp2_text oor_x86 (CONFIG ''/data'') example_ds) ! 19))) = 1 \<and>
   lines_of (sp2_text oor_x86 (CONFIG ''/data'') example_ds) ! 22 =
     ''-9.9000e+01                          exception value'' \<and>
   significant_digits (fmt_e 10 4 (exception_value (CONFIG ''/data''))) = 5"
proof -
  note c5 = C5_quantity_block [OF example_well_shaped example_config_valid example_fields,
      of oor_x86 "''/data''"]
  have x: "exception_value (CONFIG ''/data'') = Fin (- 99)"
    by (simp add: CONFIG_def)
  have a: "lines_of (sp2_text oor_x86 (CONFIG ''/data'') example_ds) ! 18 = ''QUANT''"
    using c5 [THEN conjunct1] by simp
  have b: "read_int (hd (fields_of
      (lines_of (sp2_text oor_x86 (CONFIG ''/data'') example_ds) ! 19))) = 1"
    using c5 [THEN conjunct2, THEN conjunct1] by simp
  have c: "lines_of (sp2_text oor_x86 (CONFIG ''/data'') example_ds) ! 22 =
      ''-9.9000e+01                          exception value''"
    using c5 [THEN conjunct2, THEN conjunct2, THEN conjunct1]
    by (simp add: x fmt_e_exception del: fmt_e.simps)
  have "is_finite (exception_value (CONFIG ''/data''))"
    by (simp add: x is_finite_def)
  with c5 [THEN conjunct2, THEN conjunct2, THEN conjunct2]
  have d: "significant_digits (fmt_e 10 4 (exception_value (CONFIG ''/data''))) = 5"
    by blast
  from a b c d example_well_shaped example_config_valid show ?thesis
    by (intro conjI)
qed

text \<open>
  The claim as stated fails for the configured exception value: \<open>-99.0\<close> is written
  with five significant digits, not four.
\<close>

theorem C5_counterexample:
  "fmt_e 10 4 (exception_value (CONFIG ''/data'')) = ''-9.9000e+01'' \<and>
   significant_digits (fmt_e 10 4 (exception_value (CONFIG ''/data''))) \<noteq> 4"
proof -
  have x: "exception_value (CONFIG ''/data'') = Fin (- 99)"
    by (simp add: CONFIG_def)
  have "is_finite (Fin (- 99))" by (simp add: is_finite_def)
  from significant_digits_fmt_e [OF this, of 10 4] fmt_e_exception show ?thesis
    unfolding x by simp
qed

section \<open>Validation\<close>

lemma validate_vars_find:
  "validate_vars vars ds =
   (case find (\<lambda>v. v \<notin> set (variables ds)) vars of
      None \<Rightarrow> (True, [])
    | Some v \<Rightarrow> (False, [(ERROR, ''Missing required variable: '' @ v)]))"
  by (induction vars) simp_all

lemma validate_netcdf_missing:
  assumes "v \<in> set required_vars" "v \<notin> set (variables ds)"
  obtains m where "m \<in> set required_vars" "m \<notin> set (variables ds)"
    "validate_netcdf ds = (False, [(ERROR, ''Missing required variable: '' @ m)])"
proof -
  from assms have "find (\<lambda>v. v \<notin> set (variables ds)) required_vars \<noteq> None"
    by (auto simp: find_None_iff)
  then obtain m where m: "find (\<lambda>v. v \<notin> set (variables ds)) required_vars = Some m"
    by auto
  then have "m \<in> set required_vars" "m \<notin> set (variables ds)"
    by (auto simp: find_Some_iff)
  moreover from m have "validate_netcdf ds = (False, [(ERROR, ''Missing required variable: '' @ m)])"
    by (simp add: validate_netcdf_def validate_vars_find)
  ultimately show ?thesis by (rule that)
qed

lemma validate_netcdf_well_shaped:
  assumes "well_shaped ds"
  shows "validate_netcdf ds = (True, [])"
proof -
  from assms obtain lons lats frs drs e tms where
    f: "longitude ds = Some lons" "latitude ds = Some lats" "frequency ds = Some frs"
    "direction ds = Some drs" "energy_density ds = Some e" "time ds = Some tms"
    by (rule well_shaped_fields)
  have "set (variables ds) \<supseteq> {''longitude'', ''latitude'', ''frequency'', ''direction'',
      ''energy_density'', ''time''}"
    unfolding variables_def f by simp
  then have "find (\<lambda>v. v \<notin> set (variables ds)) required_vars = None"
    by (simp add: required_vars_def find_None_iff)
  then show ?thesis
    by (simp add: validate_netcdf_def validate_vars_find)
qed

section \<open>One conversion and the file system\<close>

lemma world_log_update_id [simp]: "w\<lparr>log := log w\<rparr> = w"
  by simp

lemma convert_invalid:
  assumes "src input_path = Inr ds" "validate_netcdf ds = (False, msgs)"
  shows "convert_netcdf_to_sp2 oor cfg src input_path output_path w =
         (False, w\<lparr>log := log w @ msgs\<rparr>)"
  using assms by (simp add: convert_netcdf_to_sp2_def)

lemma makedirs_log:
  "makedirs d (w\<lparr>log := l\<rparr>) =
   (case makedirs d w of Inl e \<Rightarrow> Inl e | Inr w' \<Rightarrow> Inr (w'\<lparr>log := l\<rparr>))"
  by (simp add: makedirs_def split: option.splits)

lemma open_w_log:
  "open_w p (w\<lparr>log := l\<rparr>) =
   (case open_w p w of Inl e \<Rightarrow> Inl e | Inr w' \<Rightarrow> Inr (w'\<lparr>log := l\<rparr>))"
  by (simp add: open_w_def)

lemma convert_log:
  "fst (convert_netcdf_to_sp2 oor cfg src input_path output_path (w\<lparr>log := l\<rparr>)) =
   fst (convert_netcdf_to_sp2 oor cfg src input_path output_path w) \<and>
   files (snd (convert_netcdf_to_sp2 oor cfg src input_path output_path (w\<lparr>log := l\<rparr>))) =
   files (snd (convert_netcdf_to_sp2 oor cfg src input_path output_path w)) \<and>
   dirs (snd (convert_netcdf_to_sp2 oor cfg src input_path output_path (w\<lparr>log := l\<rparr>))) =
   dirs (snd (convert_netcdf_to_sp2 oor cfg src input_path output_path w))"
proof (cases "src input_path")
  case (Inl e)
  then show ?thesis
    by (simp add: convert_netcdf_to_sp2_def log_failure_def logging_def)
next
  case (Inr ds)
  obtain b msgs where v: "validate_netcdf ds = (b, msgs)" by (cases "validate_netcdf ds")
  show ?thesis
  proof (cases b)
    case False
    with Inr v show ?thesis
      by (simp add: convert_netcdf_to_sp2_def)
  next
    case True
    show ?thesis
    proof (cases "prepare ds")
      case (Inl e)
      with Inr v True show ?thesis
        by (simp add: convert_netcdf_to_sp2_def log_failure_def logging_def)
    next
      case p: (Inr efn)
      obtain e fs n where efn: "efn = (e, fs, n)" by (cases efn)
      show ?thesis
      proof (cases "makedirs (dirname output_path) w")
        case (Inl ex)
        with Inr v True p efn show ?thesis
          by (simp add: convert_netcdf_to_sp2_def log_failure_def logging_def makedirs_log)
      next
        case m: (Inr w1)
        show ?thesis
        proof (cases "open_w output_path w1")
          case (Inl ex)
          with Inr v True p efn m show ?thesis
            by (simp add: convert_netcdf_to_sp2_def log_failure_def logging_def makedirs_log
                open_w_log)
        next
          case o: (Inr w2)
          obtain body r where t: "write_sp2 oor cfg ds e fs n = (body, r)"
            by (cases "write_sp2 oor cfg ds e fs n")
          from Inr v True p efn m o t show ?thesis
            by (cases r)
              (simp_all add: convert_netcdf_to_sp2_def log_failure_def logging_def makedirs_log
                open_w_log Let_def)
        qed
      qed
    qed
  qed
qed

lemma same_fs_log: "same_fs w w' \<Longrightarrow> w' = w\<lparr>log := log w'\<rparr>"
  by (simp add: same_fs_def)

lemma same_fs_refl [simp]: "same_fs w w"
  by (simp add: same_fs_def)

lemma same_fs_log_update [simp]: "same_fs (w\<lparr>log := l\<rparr>) w'  \<longleftrightarrow> same_fs w w'"
  "same_fs w (w'\<lparr>log := l\<rparr>) \<longleftrightarrow> same_fs w w'"
  by (simp_all add: same_fs_def)

lemma convert_same_fs:
  assumes "same_fs w w'"
  shows "fst (convert_netcdf_to_sp2 oor cfg src input_path output_path w') =
         fst (convert_netcdf_to_sp2 oor cfg src input_path output_path w)"
    and "same_fs (snd (convert_netcdf_to_sp2 oor cfg src input_path output_path w'))
           (snd (convert_netcdf_to_sp2 oor cfg src input_path output_path w))"
  using convert_log [where w = w and l = "log w'" and oor = oor and cfg = cfg and src = src
      and input_path = input_path and output_path = output_path] same_fs_log [OF assms]
  by (simp_all add: same_fs_def)

section \<open>The log only grows\<close>

lemma makedirs_keeps_log: "makedirs d w = Inr w1 \<Longrightarrow> log w1 = log w \<and> files w1 = files w"
  by (auto simp: makedirs_def split: if_splits option.splits)

lemma open_w_keeps_log: "open_w p w = Inr w1 \<Longrightarrow> log w1 = log w \<and> dirs w1 = dirs w"
  by (auto simp: open_w_def split: if_splits)

lemma convert_log_grows:
  "\<exists>es. log (snd (convert_netcdf_to_sp2 oor cfg src input_path output_path w)) = log w @ es"
proof (cases "src input_path")
  case (Inl e)
  then show ?thesis
    by (simp add: convert_netcdf_to_sp2_def log_failure_def logging_def)
next
  case (Inr ds)
  obtain b msgs where v: "validate_netcdf ds = (b, msgs)" by (cases "validate_netcdf ds")
  show ?thesis
  proof (cases b)
    case False
    with Inr v show ?thesis
      by (simp add: convert_netcdf_to_sp2_def)
  next
    case True
    show ?thesis
    proof (cases "prepare ds")
      case (Inl e)
      with Inr v True show ?thesis
        by (simp add: convert_netcdf_to_sp2_def log_failure_def logging_def)
    next
      case p: (Inr efn)
      obtain e fs n where efn: "efn = (e, fs, n)" by (cases efn)
      show ?thesis
      proof (cases "makedirs (dirname output_path) (w\<lparr>log := log w @ msgs\<rparr>)")
        case (Inl ex)
        with Inr v True p efn show ?thesis
          by (simp add: convert_netcdf_to_sp2_def log_failure_def logging_def)
      next
        case m: (Inr w1)
        from makedirs_keeps_log [OF m] have l1: "log w1 = log w @ msgs" by simp
        show ?thesis
        proof (cases "open_w output_path w1")
          case (Inl ex)
          with Inr v True p efn m l1 show ?thesis
            by (simp add: convert_netcdf_to_sp2_def log_failure_def logging_def)
        next
          case o: (Inr w2)
          from open_w_keeps_log [OF o] l1 have l2: "log w2 = log w @ msgs" by simp
          obtain body r where t: "write_sp2 oor cfg ds e fs n = (body, r)"
            by (cases "write_sp2 oor cfg ds e fs n")
          from Inr v True p efn m o t l2 show ?thesis
            by (cases r)
              (simp_all add: convert_netcdf_to_sp2_def log_failure_def logging_def Let_def)
        qed
      qed
    qed
  qed
qed

section \<open>The batch loop\<close>

lemma same_fs_sym: "same_fs w w' \<Longrightarrow> same_fs w' w"
  by (simp add: same_fs_def)

lemma path_exists_same_fs: "same_fs w w' \<Longrightarrow> path_exists p w' = path_exists p w"
  by (simp add: same_fs_def path_exists_def)

lemma process_file_same_fs:
  assumes "same_fs w w'"
  shows "fst (process_file oor cfg src f (c, w')) = fst (process_file oor cfg src f (c, w)) \<and>
         same_fs (snd (process_file oor cfg src f (c, w')))
                 (snd (process_file oor cfg src f (c, w)))"
proof -
  let ?inp = "path_join (input_dir cfg) f"
  let ?out = "path_join (output_dir cfg) (fst (splitext f) @ ''.sp2'')"
  obtain r w1 where a: "convert_netcdf_to_sp2 oor cfg src ?inp ?out w = (r, w1)"
    by (cases "convert_netcdf_to_sp2 oor cfg src ?inp ?out w")
  obtain r' w1' where b: "convert_netcdf_to_sp2 oor cfg src ?inp ?out w' = (r', w1')"
    by (cases "convert_netcdf_to_sp2 oor cfg src ?inp ?out w'")
  from convert_same_fs [OF assms, of oor cfg src ?inp ?out] a b
  have c: "r' = r" "same_fs w1' w1" by simp_all
  show ?thesis
    using same_fs_sym [OF assms] a b c path_exists_same_fs [OF assms, of ?out]
    by (cases r) (simp_all add: process_file_def Let_def logging_def)
qed

lemma process_files_same_fs:
  assumes "same_fs w w'"
  shows "fst (process_files oor cfg src fs (c, w')) = fst (process_files oor cfg src fs (c, w)) \<and>
         same_fs (snd (process_files oor cfg src fs (c, w')))
                 (snd (process_files oor cfg src fs (c, w)))"
  using assms
proof (induction fs arbitrary: c w w')
  case Nil
  then show ?case by (simp add: process_files_def same_fs_sym)
next
  case (Cons f fs)
  obtain c1 w1 where a: "process_file oor cfg src f (c, w) = (c1, w1)"
    by (cases "process_file oor cfg src f (c, w)")
  obtain c1' w1' where b: "process_file oor cfg src f (c, w') = (c1', w1')"
    by (cases "process_file oor cfg src f (c, w')")
  from process_file_same_fs [OF Cons.prems, of oor cfg src f c] a b
  have "c1' = c1" "same_fs w1 w1'" by (simp_all add: same_fs_sym)
  with Cons.IH [of w1 w1' c1] a b show ?case
    by (simp add: process_files_def)
qed

lemma process_files_append:
  "process_files oor cfg src (xs @ ys) st =
   process_files oor cfg src ys (process_files oor cfg src xs st)"
  by (simp add: process_files_def)

lemma process_files_Cons:
  "process_files oor cfg src (x # ys) st =
   process_files oor cfg src ys (process_file oor cfg src x st)"
  by (simp add: process_files_def)

lemma process_file_log_grows:
  "\<exists>es. log (snd (process_file oor cfg src f (c, w))) = log w @ es"
proof -
  let ?inp = "path_join (input_dir cfg) f"
  let ?out = "path_join (output_dir cfg) (fst (splitext f) @ ''.sp2'')"
  obtain r w1 where a: "convert_netcdf_to_sp2 oor cfg src ?inp ?out w = (r, w1)"
    by (cases "convert_netcdf_to_sp2 oor cfg src ?inp ?out w")
  from convert_log_grows [of oor cfg src ?inp ?out w] a
  obtain es where "log w1 = log w @ es" by auto
  with a show ?thesis
    by (cases r) (simp_all add: process_file_def Let_def logging_def)
qed

lemma process_files_log_grows:
  "\<exists>es. log (snd (process_files oor cfg src fs (c, w))) = log w @ es"
proof (induction fs arbitrary: c w)
  case Nil
  show ?case by (simp add: process_files_def)
next
  case (Cons f fs)
  obtain c1 w1 where a: "process_file oor cfg src f (c, w) = (c1, w1)"
    by (cases "process_file oor cfg src f (c, w)")
  from process_file_log_grows [of oor cfg src f c w] a
  obtain es where e: "log w1 = log w @ es" by auto
  from Cons.IH [of c1 w1] obtain es' where
    "log (snd (process_files oor cfg src fs (c1, w1))) = log w1 @ es'" by auto
  with a e show ?case
    by (simp add: process_files_Cons)
qed

lemma process_file_invalid:
  assumes "src (path_join (input_dir cfg) f) = Inr ds" "validate_netcdf ds = (False, msgs)"
  shows "fst (process_file oor cfg src f (c, w)) = c"
    and "same_fs (snd (process_file oor cfg src f (c, w))) w"
    and "overwrite cfg \<or>
         \<not> path_exists (path_join (output_dir cfg) (fst (splitext f) @ ''.sp2'')) w \<Longrightarrow>
         log (snd (process_file oor cfg src f (c, w))) = log w @ msgs"
  using assms
  by (auto simp: process_file_def Let_def convert_invalid logging_def)

section \<open>A file that fails validation\<close>

text \<open>
  Claim C10. When the dataset lacks a required variable, \<^verbatim>\<open>convert_netcdf_to_sp2\<close>
  answers \<open>False\<close> and leaves every file and every directory as it was: the output file
  and its directory exist afterwards only if they existed before. The one change is the
  error entry in the log.
\<close>

theorem C10_validation_failure_leaves_output:
  assumes "src input_path = Inr ds" and "v \<in> set required_vars" "v \<notin> set (variables ds)"
  shows "fst (convert_netcdf_to_sp2 oor cfg src input_path output_path w) = False \<and>
         files (snd (convert_netcdf_to_sp2 oor cfg src input_path output_path w)) = files w \<and>
         dirs (snd (convert_netcdf_to_sp2 oor cfg src input_path output_path w)) = dirs w \<and>
         path_exists output_path (snd (convert_netcdf_to_sp2 oor cfg src input_path output_path w)) =
           path_exists output_path w \<and>
         path_exists (dirname output_path)
             (snd (convert_netcdf_to_sp2 oor cfg src input_path output_path w)) =
           path_exists (dirname output_path) w \<and>
         log (snd (convert_netcdf_to_sp2 oor cfg src input_path output_path w)) =
           log w @ snd (validate_netcdf ds)"
proof -
  from assms(2,3) obtain m where
    "validate_netcdf ds = (False, [(ERROR, ''Missing required variable: '' @ m)])"
    by (rule validate_netcdf_missing)
  from convert_invalid [where src = src and input_path = input_path and oor = oor and cfg = cfg
      and output_path = output_path and w = w, OF assms(1) this] this
  show ?thesis
    by (simp add: path_exists_def)
qed

lemma example_bad_missing:
  "''direction'' \<in> set required_vars" "''direction'' \<notin> set (variables example_bad)"
  by (simp_all add: required_vars_def variables_def example_bad_def example_ds_def)

theorem C10_validation_failure_leaves_output_witness:
  "example_src ''/data/esp_b.nc'' = Inr example_bad \<and>
   ''direction'' \<in> set required_vars \<and> ''direction'' \<notin> set (variables example_bad) \<and>
   fst (convert_netcdf_to_sp2 oor_x86 (CONFIG ''/data'') example_src ''/data/esp_b.nc''
          ''/data/converted_sp2_files/esp_b.sp2'' example_world) = False \<and>
   files (snd (convert_netcdf_to_sp2 oor_x86 (CONFIG ''/data'') example_src ''/data/esp_b.nc''
          ''/data/converted_sp2_files/esp_b.sp2'' example_world)) = Map.empty \<and>
   dirs (snd (convert_netcdf_to_sp2 oor_x86 (CONFIG ''/data'') example_src ''/data/esp_b.nc''
          ''/data/converted_sp2_files/esp_b.sp2'' example_world)) = {''/data''}"
proof -
  have s: "example_src ''/data/esp_b.nc'' = Inr example_bad"
    by (simp add: example_src_def)
  from C10_validation_failure_leaves_output [where src = example_src
      and input_path = "''/data/esp_b.nc''" and oor = oor_x86 and cfg = "CONFIG ''/data''"
      and output_path = "''/data/converted_sp2_files/esp_b.sp2''" and w = example_world,
      OF s example_bad_missing] s example_bad_missing
  show ?thesis
    by (simp add: example_world_def)
qed

section \<open>A batch with a file that fails validation\<close>

text \<open>
  Claim C6. Let the file \<open>b\<close> of a batch hold a dataset that lacks a required variable.
  Validation answers \<open>False\<close> with one error entry that names a missing required
  variable; unless \<open>b\<close> is passed over because its output exists, that entry is in the
  log at the end of the batch. The loop goes on through the files after \<open>b\<close>, and the
  batch ends with the same success count, the same files and the same directories as the
  batch without \<open>b\<close>: every other file is converted exactly as if \<open>b\<close> were not there.
\<close>

theorem C6_missing_field_is_skipped:
  assumes "src (path_join (input_dir cfg) b) = Inr ds"
    and "v \<in> set required_vars" "v \<notin> set (variables ds)"
  shows "(\<exists>m \<in> set required_vars. m \<notin> set (variables ds) \<and>
            validate_netcdf ds = (False, [(ERROR, ''Missing required variable: '' @ m)]) \<and>
            (overwrite cfg \<or>
             \<not> path_exists (path_join (output_dir cfg) (fst (splitext b) @ ''.sp2''))
                 (snd (process_files oor cfg src xs (c, w))) \<longrightarrow>
             (ERROR, ''Missing required variable: '' @ m) \<in>
               set (log (snd (process_files oor cfg src (xs @ b # ys) (c, w)))))) \<and>
         fst (process_files oor cfg src (xs @ b # ys) (c, w)) =
           fst (process_files oor cfg src (xs @ ys) (c, w)) \<and>
         files (snd (process_files oor cfg src (xs @ b # ys) (c, w))) =
           files (snd (process_files oor cfg src (xs @ ys) (c, w))) \<and>
         dirs (snd (process_files oor cfg src (xs @ b # ys) (c, w))) =
           dirs (snd (process_files oor cfg src (xs @ ys) (c, w)))"
proof -
  from assms(2,3) obtain m where m: "m \<in> set required_vars" "m \<notin> set (variables ds)"
    and vm: "validate_netcdf ds = (False, [(ERROR, ''Missing required variable: '' @ m)])"
    by (rule validate_netcdf_missing)
  obtain c1 w1 where x: "process_files oor cfg src xs (c, w) = (c1, w1)"
    by (cases "process_files oor cfg src xs (c, w)")
  obtain c2 w2 where y: "process_file oor cfg src b (c1, w1) = (c2, w2)"
    by (cases "process_file oor cfg src b (c1, w1)")
  note inv = process_file_invalid [where src = src and cfg = cfg and f = b and oor = oor
      and c = c1 and w = w1, OF assms(1) vm]
  from inv(1,2) y have c2: "c2 = c1" and fs: "same_fs w1 w2"
    by (simp_all add: same_fs_sym)
  have split: "process_files oor cfg src (xs @ b # ys) (c, w) =
      process_files oor cfg src ys (c1, w2)"
    by (simp add: process_files_append process_files_Cons x y c2)
  have rest: "process_files oor cfg src (xs @ ys) (c, w) = process_files oor cfg src ys (c1, w1)"
    by (simp add: process_files_append x)
  note eq = process_files_same_fs [OF fs, of oor cfg src ys c1]
  have logged: "(ERROR, ''Missing required variable: '' @ m) \<in>
      set (log (snd (process_files oor cfg src (xs @ b # ys) (c, w))))"
    if "overwrite cfg \<or>
        \<not> path_exists (path_join (output_dir cfg) (fst (splitext b) @ ''.sp2''))
            (snd (process_files oor cfg src xs (c, w)))"
  proof -
    from that x have "overwrite cfg \<or>
        \<not> path_exists (path_join (output_dir cfg) (fst (splitext b) @ ''.sp2'')) w1"
      by simp
    from inv(3) [OF this] y
    have "log w2 = log w1 @ [(ERROR, ''Missing required variable: '' @ m)]" by simp
    moreover from process_files_log_grows [of oor cfg src ys c1 w2]
    obtain es where "log (snd (process_files oor cfg src ys (c1, w2))) = log w2 @ es" by auto
    ultimately show ?thesis by (simp add: split)
  qed
  from m vm logged
  have first: "\<exists>m \<in> set required_vars. m \<notin> set (variables ds) \<and>
      validate_netcdf ds = (False, [(ERROR, ''Missing required variable: '' @ m)]) \<and>
      (overwrite cfg \<or>
       \<not> path_exists (path_join (output_dir cfg) (fst (splitext b) @ ''.sp2''))
           (snd (process_files oor cfg src xs (c, w))) \<longrightarrow>
       (ERROR, ''Missing required variable: '' @ m) \<in>
         set (log (snd (process_files oor cfg src (xs @ b # ys) (c, w)))))"
    by blast
  from eq have "fst (process_files oor cfg src (xs @ b # ys) (c, w)) =
      fst (process_files oor cfg src (xs @ ys) (c, w))"
    "files (snd (process_files oor cfg src (xs @ b # ys) (c, w))) =
      files (snd (process_files oor cfg src (xs @ ys) (c, w)))"
    "dirs (snd (process_files oor cfg src (xs @ b # ys) (c, w))) =
      dirs (snd (process_files oor cfg src (xs @ ys) (c, w)))"
    by (simp_all add: split rest same_fs_def)
  with first show ?thesis by (intro conjI)
qed

section \<open>Creating the directory and opening the file\<close>

lemma below_file_None: "below_file P (xs @ [d]) = None \<longleftrightarrow> (\<forall>a \<in> set xs. \<not> P a)"
proof (induction xs)
  case Nil
  show ?case by simp
next
  case (Cons a xs)
  then show ?case by (cases xs) auto
qed

lemma makedirs_Inr_iff:
  "makedirs d w = Inr w1 \<longleftrightarrow>
   d \<noteq> [] \<and> (\<forall>p \<in> set (d # ancestors d). p \<notin> dom (files w)) \<and>
   w1 = w\<lparr>dirs := dirs w \<union> set (d # ancestors d)\<rparr>"
proof (cases "below_file (\<lambda>p. p \<in> dom (files w)) (ancestors d @ [d])")
  case None
  then have "\<forall>a \<in> set (ancestors d). a \<notin> dom (files w)"
    by (simp only: below_file_None)
  with None show ?thesis
    by (auto simp: makedirs_def)
next
  case (Some p)
  then have "\<not> (\<forall>a \<in> set (ancestors d). a \<notin> dom (files w))"
    using below_file_None [of "\<lambda>p. p \<in> dom (files w)" "ancestors d" d] by simp
  with Some show ?thesis
    by (auto simp: makedirs_def)
qed

lemma makedirs_Inl_iff:
  "(\<exists>e. makedirs d w = Inl e) \<longleftrightarrow>
   \<not> (d \<noteq> [] \<and> (\<forall>p \<in> set (d # ancestors d). p \<notin> dom (files w)))"
  using makedirs_Inr_iff [of d w] by (cases "makedirs d w") auto

lemma rstrip_slash_id: "p \<noteq> [] \<Longrightarrow> last p \<noteq> CHR ''/'' \<Longrightarrow> rstrip_slash p = p"
  by (cases p rule: rev_cases) (simp_all add: rstrip_slash_def)

lemma open_w_Inr_iff:
  "open_w p w = Inr w2 \<longleftrightarrow>
   p \<noteq> [] \<and> (\<forall>a \<in> set (ancestors p). a \<notin> dom (files w)) \<and> p \<notin> dirs w \<and>
   last p \<noteq> CHR ''/'' \<and> (dirname p = [] \<or> dirname p \<in> dirs w) \<and>
   w2 = w\<lparr>files := (files w)(p \<mapsto> [])\<rparr>"
proof (cases "p \<noteq> [] \<and> last p \<noteq> CHR ''/''")
  case True
  then have "rstrip_slash p = p" by (simp add: rstrip_slash_id)
  with True show ?thesis
    by (auto simp: open_w_def)
next
  case False
  then show ?thesis
    by (auto simp: open_w_def)
qed

lemma ancestors_shorter: "a \<in> set (ancestors p) \<Longrightarrow> length a < length p"
  by (auto simp: ancestors_def)

lemma dirname_Nil [simp]: "dirname [] = []"
  by (simp add: dirname_def)

section \<open>One conversion, by cases\<close>

lemma convert_not_ready:
  assumes "(\<exists>e. src input_path = Inl e) \<or>
           (\<exists>ds. src input_path = Inr ds \<and>
              (\<not> fst (validate_netcdf ds) \<or> (\<exists>e. prepare ds = Inl e)))"
  shows "fst (convert_netcdf_to_sp2 oor cfg src input_path output_path w) = False \<and>
         files (snd (convert_netcdf_to_sp2 oor cfg src input_path output_path w)) = files w \<and>
         dirs (snd (convert_netcdf_to_sp2 oor cfg src input_path output_path w)) = dirs w"
  using assms
  by (auto simp: convert_netcdf_to_sp2_def log_failure_def logging_def
      split: prod.splits bool.splits)

lemma convert_ready:
  assumes "src input_path = Inr ds" "validate_netcdf ds = (True, msgs)"
    "prepare ds = Inr (e, fs, n)" "write_sp2 oor cfg ds e fs n = (body, r)"
  shows "fst (convert_netcdf_to_sp2 oor cfg src input_path output_path w) =
           ((dirname output_path \<noteq> [] \<and>
             (\<forall>p \<in> set (dirname output_path # ancestors (dirname output_path)).
                p \<notin> dom (files w))) \<and>
            (output_path \<notin> dirs w \<union> set (dirname output_path # ancestors (dirname output_path)) \<and>
             last output_path \<noteq> CHR ''/'' \<and>
             (\<forall>a \<in> set (ancestors output_path). a \<notin> dom (files w))) \<and> r = Inr ()) \<and>
         files (snd (convert_netcdf_to_sp2 oor cfg src input_path output_path w)) =
           (if (dirname output_path \<noteq> [] \<and>
                (\<forall>p \<in> set (dirname output_path # ancestors (dirname output_path)).
                   p \<notin> dom (files w))) \<and>
               (output_path \<notin> dirs w \<union> set (dirname output_path # ancestors (dirname output_path)) \<and>
                last output_path \<noteq> CHR ''/'' \<and>
                (\<forall>a \<in> set (ancestors output_path). a \<notin> dom (files w)))
            then (files w)(output_path \<mapsto> body) else files w) \<and>
         dirs (snd (convert_netcdf_to_sp2 oor cfg src input_path output_path w)) =
           (if (dirname output_path \<noteq> [] \<and>
                (\<forall>p \<in> set (dirname output_path # ancestors (dirname output_path)).
                   p \<notin> dom (files w)))
            then dirs w \<union> set (dirname output_path # ancestors (dirname output_path))
            else dirs w)"
proof -
  define d where "d = dirname output_path"
  define A where "A = set (d # ancestors d)"
  define w0 where "w0 = w\<lparr>log := log w @ msgs\<rparr>"
  define mk where "mk \<longleftrightarrow> d \<noteq> [] \<and> (\<forall>p \<in> A. p \<notin> dom (files w))"
  define op where "op \<longleftrightarrow> output_path \<notin> dirs w \<union> A \<and> last output_path \<noteq> CHR ''/'' \<and>
      (\<forall>a \<in> set (ancestors output_path). a \<notin> dom (files w))"
  let ?c = "convert_netcdf_to_sp2 oor cfg src input_path output_path w"
  have conv: "?c =
      (case makedirs d w0 of
         Inl ex \<Rightarrow> (False, log_failure input_path ex w0)
       | Inr w1 \<Rightarrow>
           (case open_w output_path w1 of
              Inl ex \<Rightarrow> (False, log_failure input_path ex w1)
            | Inr w2 \<Rightarrow>
                (let w3 = w2\<lparr>files := (files w2)(output_path \<mapsto> body)\<rparr>
                 in case r of
                      Inl ex \<Rightarrow> (False, log_failure input_path ex w3)
                    | Inr u \<Rightarrow> (True, w3))))"
    by (simp add: convert_netcdf_to_sp2_def assms d_def w0_def split: sum.splits)
  have fw0: "files w0 = files w" "dirs w0 = dirs w"
    by (simp_all add: w0_def)
  have main: "fst ?c = (mk \<and> op \<and> r = Inr ()) \<and>
      files (snd ?c) = (if mk \<and> op then (files w)(output_path \<mapsto> body) else files w) \<and>
      dirs (snd ?c) = (if mk then dirs w \<union> A else dirs w)"
  proof (cases "makedirs d w0")
    case (Inl ex)
    then have "\<not> mk"
      using makedirs_Inl_iff [of d w0] unfolding mk_def A_def fw0 by blast
    with Inl show ?thesis
      by (simp add: conv log_failure_def logging_def fw0)
  next
    case (Inr w1)
    then have mk: mk and w1: "w1 = w0\<lparr>dirs := dirs w \<union> A\<rparr>"
      using makedirs_Inr_iff [of d w0 w1] unfolding mk_def A_def fw0 by blast+
    from mk have dA: "d \<noteq> []" "d \<in> A" "d \<notin> dom (files w)"
      unfolding mk_def A_def by auto
    from dA(1) have ne: "output_path \<noteq> []"
      unfolding d_def by auto
    have f1: "files w1 = files w" "dirs w1 = dirs w \<union> A"
      by (simp_all add: w1 fw0)
    have op_iff: "(\<exists>w2. open_w output_path w1 = Inr w2) \<longleftrightarrow> op"
      unfolding open_w_Inr_iff f1 op_def using ne dA unfolding d_def by auto
    show ?thesis
    proof (cases "open_w output_path w1")
      case (Inl ex)
      with op_iff have "\<not> op" by auto
      with Inl Inr mk show ?thesis
        by (simp add: conv log_failure_def logging_def f1)
    next
      case o: (Inr w2)
      with op_iff have op: op by auto
      from o have w2: "w2 = w1\<lparr>files := (files w1)(output_path \<mapsto> [])\<rparr>"
        by (simp add: open_w_Inr_iff)
      have f2: "files w2 = (files w)(output_path \<mapsto> [])" "dirs w2 = dirs w \<union> A"
        by (simp_all add: w2 f1)
      from o Inr mk op show ?thesis
        by (cases r) (simp_all add: conv log_failure_def logging_def Let_def f2)
    qed
  qed
  then show ?thesis
    unfolding mk_def op_def A_def d_def .
qed

lemma convert_ok:
  assumes "src input_path = Inr ds" "well_shaped ds"
    "makedirs (dirname output_path) w = Inr w1" "open_w output_path w1 = Inr w2"
  shows "convert_netcdf_to_sp2 oor cfg src input_path output_path w =
         (True, w2\<lparr>files := (files w2)(output_path \<mapsto> sp2_text oor cfg ds)\<rparr>)"
proof -
  from assms(2) obtain lons lats frs drs e tms where
    f: "longitude ds = Some lons" "latitude ds = Some lats" "frequency ds = Some frs"
    "direction ds = Some drs" "energy_density ds = Some e" "time ds = Some tms"
    by (rule well_shaped_fields)
  note p = prepare_ok [OF f(1,5,6)]
  note t = write_sp2_ok [OF assms(2) f, of oor cfg]
  have s: "sp2_text oor cfg ds = unlines (sp2_lines oor cfg lons lats frs drs tms e
      (factors_of ds (length tms) (length lons)))"
    by (rule sp2_text_ok [OF assms(2) f])
  show ?thesis
    by (simp add: convert_netcdf_to_sp2_def assms validate_netcdf_well_shaped p t s)
qed

section \<open>Running a conversion again\<close>

lemma convert_dichotomy:
  obtains (not_ready) "(\<exists>e. src input_path = Inl e) \<or>
           (\<exists>ds. src input_path = Inr ds \<and>
              (\<not> fst (validate_netcdf ds) \<or> (\<exists>e. prepare ds = Inl e)))"
  | (ready) ds msgs e fs n body r where "src input_path = Inr ds"
      "validate_netcdf ds = (True, msgs)" "prepare ds = Inr (e, fs, n)"
      "write_sp2 oor cfg ds e fs n = (body, r)"
proof (cases "src input_path")
  case (Inl e)
  then show ?thesis using not_ready by blast
next
  case (Inr ds)
  show ?thesis
  proof (cases "fst (validate_netcdf ds)")
    case False
    with Inr show ?thesis using not_ready by blast
  next
    case True
    then obtain msgs where v: "validate_netcdf ds = (True, msgs)"
      by (cases "validate_netcdf ds") auto
    show ?thesis
    proof (cases "prepare ds")
      case (Inl e)
      with Inr show ?thesis using not_ready by blast
    next
      case p: (Inr efn)
      obtain e fs n where "efn = (e, fs, n)" by (cases efn)
      moreover obtain body r where "write_sp2 oor cfg ds e fs n = (body, r)"
        by (cases "write_sp2 oor cfg ds e fs n")
      ultimately show ?thesis using Inr v p ready by blast
    qed
  qed
qed

text \<open>
  Claim C9. A conversion depends on the dataset, the configuration and the files and
  directories it meets, not on the log. Run a second time on what the first run left
  behind, it gives the same answer and leaves every file with the same content and the
  same directories. And two successful conversions of the same input, started in any two
  worlds, leave the same content in the output file.
\<close>

theorem C9_conversion_is_deterministic:
  "fst (convert_netcdf_to_sp2 oor cfg src input_path output_path
          (snd (convert_netcdf_to_sp2 oor cfg src input_path output_path w))) =
     fst (convert_netcdf_to_sp2 oor cfg src input_path output_path w) \<and>
   files (snd (convert_netcdf_to_sp2 oor cfg src input_path output_path
          (snd (convert_netcdf_to_sp2 oor cfg src input_path output_path w)))) =
     files (snd (convert_netcdf_to_sp2 oor cfg src input_path output_path w)) \<and>
   dirs (snd (convert_netcdf_to_sp2 oor cfg src input_path output_path
          (snd (convert_netcdf_to_sp2 oor cfg src input_path output_path w)))) =
     dirs (snd (convert_netcdf_to_sp2 oor cfg src input_path output_path w)) \<and>
   (fst (convert_netcdf_to_sp2 oor cfg src input_path output_path w) \<and>
    fst (convert_netcdf_to_sp2 oor cfg src input_path output_path w') \<longrightarrow>
      files (snd (convert_netcdf_to_sp2 oor cfg src input_path output_path w)) output_path \<noteq> None \<and>
      files (snd (convert_netcdf_to_sp2 oor cfg src input_path output_path w)) output_path =
      files (snd (convert_netcdf_to_sp2 oor cfg src input_path output_path w')) output_path)"
proof (cases rule: convert_dichotomy [where src = src and input_path = input_path and oor = oor
    and cfg = cfg])
  case not_ready
  note n = convert_not_ready [where src = src and input_path = input_path and oor = oor
      and cfg = cfg and output_path = output_path, OF not_ready]
  from n [where w = w] n [where w = w']
    n [where w = "snd (convert_netcdf_to_sp2 oor cfg src input_path output_path w)"]
  show ?thesis by simp
next
  case (ready ds msgs e fs n body r)
  define d where "d = dirname output_path"
  define A where "A = set (d # ancestors d)"
  define w1 where "w1 = snd (convert_netcdf_to_sp2 oor cfg src input_path output_path w)"
  define mk where "mk v \<longleftrightarrow> d \<noteq> [] \<and> (\<forall>p \<in> A. p \<notin> dom (files v))" for v :: world
  define op where "op v \<longleftrightarrow> output_path \<notin> dirs v \<union> A \<and> last output_path \<noteq> CHR ''/'' \<and>
      (\<forall>a \<in> set (ancestors output_path). a \<notin> dom (files v))"
    for v :: world
  have r: "fst (convert_netcdf_to_sp2 oor cfg src input_path output_path v) =
        (mk v \<and> op v \<and> r = Inr ())"
      "files (snd (convert_netcdf_to_sp2 oor cfg src input_path output_path v)) =
        (if mk v \<and> op v then (files v)(output_path \<mapsto> body) else files v)"
      "dirs (snd (convert_netcdf_to_sp2 oor cfg src input_path output_path v)) =
        (if mk v then dirs v \<union> A else dirs v)" for v
    using convert_ready [where src = src and input_path = input_path and output_path = output_path
        and w = v, OF ready]
    unfolding mk_def op_def A_def d_def by blast+
  have f1: "files w1 = (if mk w \<and> op w then (files w)(output_path \<mapsto> body) else files w)"
    and d1: "dirs w1 = (if mk w then dirs w \<union> A else dirs w)"
    unfolding w1_def by (rule r(2), rule r(3))
  have mk1: "mk w1 \<longleftrightarrow> mk w"
    unfolding mk_def f1 by (auto simp: op_def)
  have self: "output_path \<notin> set (ancestors output_path)"
    using ancestors_shorter [of output_path output_path] by auto
  have op1: "op w1 \<longleftrightarrow> op w" if "mk w"
    using that self unfolding op_def d1 f1 by auto
  have a: "fst (convert_netcdf_to_sp2 oor cfg src input_path output_path w1) =
      fst (convert_netcdf_to_sp2 oor cfg src input_path output_path w)"
    unfolding r(1) mk1 using op1 by blast
  have b: "files (snd (convert_netcdf_to_sp2 oor cfg src input_path output_path w1)) = files w1"
    unfolding r(2) mk1 using op1 f1 by (cases "mk w"; cases "op w") simp_all
  have c: "dirs (snd (convert_netcdf_to_sp2 oor cfg src input_path output_path w1)) = dirs w1"
    unfolding r(3) mk1 using d1 by (cases "mk w") auto
  have e: "files (snd (convert_netcdf_to_sp2 oor cfg src input_path output_path v)) output_path =
      Some body" if "fst (convert_netcdf_to_sp2 oor cfg src input_path output_path v)" for v
    using that unfolding r(1) r(2) by simp
  from a b c e [of w] e [of w'] show ?thesis
    unfolding w1_def by simp
qed

section \<open>The example batch\<close>

lemma example_dirname:
  "dirname ''/data/converted_sp2_files/esp_a.sp2'' = ''/data/converted_sp2_files''"
  by code_simp

lemma example_ancestors: "ancestors ''/data/converted_sp2_files'' = [''/data'']"
  by code_simp

lemma example_ancestors_out:
  "ancestors ''/data/converted_sp2_files/esp_a.sp2'' = [''/data'', ''/data/converted_sp2_files'']"
  by code_simp

lemma example_paths:
  "path_join (input_dir (CONFIG ''/data'')) ''esp_a.nc'' = ''/data/esp_a.nc''"
  "path_join (input_dir (CONFIG ''/data'')) ''esp_b.nc'' = ''/data/esp_b.nc''"
  "path_join (output_dir (CONFIG ''/data'')) (fst (splitext ''esp_a.nc'') @ ''.sp2'') =
     ''/data/converted_sp2_files/esp_a.sp2''"
  "path_join (output_dir (CONFIG ''/data'')) (fst (splitext ''esp_b.nc'') @ ''.sp2'') =
     ''/data/converted_sp2_files/esp_b.sp2''"
  by code_simp+

lemma example_convert:
  "convert_netcdf_to_sp2 oor_x86 (CONFIG ''/data'') example_src ''/data/esp_a.nc''
     ''/data/converted_sp2_files/esp_a.sp2'' example_world =
   (True,
    \<lparr>files = [''/data/converted_sp2_files/esp_a.sp2'' \<mapsto>
                sp2_text oor_x86 (CONFIG ''/data'') example_ds],
     dirs = {''/data'', ''/data/converted_sp2_files''},
     log = []\<rparr>)"
proof -
  let ?out = "''/data/converted_sp2_files/esp_a.sp2''"
  let ?w1 = "example_world\<lparr>dirs := dirs example_world \<union>
      set (''/data/converted_sp2_files'' # ancestors ''/data/converted_sp2_files'')\<rparr>"
  let ?w2 = "?w1\<lparr>files := (files ?w1)(?out \<mapsto> [])\<rparr>"
  have s: "example_src ''/data/esp_a.nc'' = Inr example_ds"
    by (simp add: example_src_def)
  have m: "makedirs (dirname ?out) example_world = Inr ?w1"
    unfolding example_dirname makedirs_Inr_iff
    by (simp add: example_world_def example_ancestors)
  have o: "open_w ?out ?w1 = Inr ?w2"
    unfolding open_w_Inr_iff example_dirname
    by (simp add: example_world_def example_ancestors example_ancestors_out)
  from convert_ok [where src = example_src and input_path = "''/data/esp_a.nc''"
      and oor = oor_x86 and cfg = "CONFIG ''/data''", OF s example_well_shaped m o]
  show ?thesis
    by (simp add: example_world_def example_ancestors insert_commute)
qed

theorem C9_conversion_is_deterministic_witness:
  "fst (convert_netcdf_to_sp2 oor_x86 (CONFIG ''/data'') example_src ''/data/esp_a.nc''
          ''/data/converted_sp2_files/esp_a.sp2'' example_world) \<and>
   fst (convert_netcdf_to_sp2 oor_x86 (CONFIG ''/data'') example_src ''/data/esp_a.nc''
          ''/data/converted_sp2_files/esp_a.sp2''
          (snd (convert_netcdf_to_sp2 oor_x86 (CONFIG ''/data'') example_src ''/data/esp_a.nc''
                  ''/data/converted_sp2_files/esp_a.sp2'' example_world))) \<and>
   files (snd (convert_netcdf_to_sp2 oor_x86 (CONFIG ''/data'') example_src ''/data/esp_a.nc''
          ''/data/converted_sp2_files/esp_a.sp2''
          (snd (convert_netcdf_to_sp2 oor_x86 (CONFIG ''/data'') example_src ''/data/esp_a.nc''
                  ''/data/converted_sp2_files/esp_a.sp2'' example_world))))
     ''/data/converted_sp2_files/esp_a.sp2'' =
   Some (sp2_text oor_x86 (CONFIG ''/data'') example_ds)"
proof -
  define w1 where "w1 = snd (convert_netcdf_to_sp2 oor_x86 (CONFIG ''/data'') example_src
      ''/data/esp_a.nc'' ''/data/converted_sp2_files/esp_a.sp2'' example_world)"
  note c9 = C9_conversion_is_deterministic [where oor = oor_x86 and cfg = "CONFIG ''/data''"
      and src = example_src and input_path = "''/data/esp_a.nc''"
      and output_path = "''/data/converted_sp2_files/esp_a.sp2''" and w = example_world
      and w' = w1, folded w1_def]
  have a: "fst (convert_netcdf_to_sp2 oor_x86 (CONFIG ''/data'') example_src ''/data/esp_a.nc''
      ''/data/converted_sp2_files/esp_a.sp2'' example_world)"
    by (simp add: example_convert)
  with c9 have b: "fst (convert_netcdf_to_sp2 oor_x86 (CONFIG ''/data'') example_src
      ''/data/esp_a.nc'' ''/data/converted_sp2_files/esp_a.sp2'' w1)"
    by blast
  have "files w1 ''/data/converted_sp2_files/esp_a.sp2'' =
      Some (sp2_text oor_x86 (CONFIG ''/data'') example_ds)"
    by (simp add: w1_def example_convert)
  with c9 have c: "files (snd (convert_netcdf_to_sp2 oor_x86 (CONFIG ''/data'') example_src
      ''/data/esp_a.nc'' ''/data/converted_sp2_files/esp_a.sp2'' w1))
      ''/data/converted_sp2_files/esp_a.sp2'' =
      Some (sp2_text oor_x86 (CONFIG ''/data'') example_ds)"
    by simp
  from a b c show ?thesis
    unfolding w1_def by (intro conjI)
qed

lemma example_validate_bad:
  "validate_netcdf example_bad = (False, [(ERROR, ''Missing required variable: direction'')])"
  by (simp add: validate_netcdf_def required_vars_def variables_def example_bad_def
      example_ds_def)

lemma example_process_a:
  "process_files oor_x86 (CONFIG ''/data'') example_src [''esp_a.nc''] (0, example_world) =
   (1,
    \<lparr>files = [''/data/converted_sp2_files/esp_a.sp2'' \<mapsto>
                sp2_text oor_x86 (CONFIG ''/data'') example_ds],
     dirs = {''/data'', ''/data/converted_sp2_files''},
     log = [(INFO, ''Successfully converted: esp_a.nc'')]\<rparr>)"
proof -
  have o: "overwrite (CONFIG ''/data'') = False"
    by (simp add: CONFIG_def)
  have p: "\<not> path_exists ''/data/converted_sp2_files/esp_a.sp2'' example_world"
    by (simp add: path_exists_def example_world_def)
  show ?thesis
    unfolding process_files_def
    by (simp add: process_file_def example_paths o p example_convert logging_def)
qed

theorem C6_missing_field_is_skipped_witness:
  "example_src (path_join (input_dir (CONFIG ''/data'')) ''esp_b.nc'') = Inr example_bad \<and>
   ''direction'' \<in> set required_vars \<and> ''direction'' \<notin> set (variables example_bad) \<and>
   validate_netcdf example_bad = (False, [(ERROR, ''Missing required variable: direction'')]) \<and>
   (ERROR, ''Missing required variable: direction'') \<in>
     set (log (snd (process_files oor_x86 (CONFIG ''/data'') example_src
                      [''esp_b.nc'', ''esp_a.nc''] (0, example_world)))) \<and>
   fst (process_files oor_x86 (CONFIG ''/data'') example_src
          [''esp_b.nc'', ''esp_a.nc''] (0, example_world)) = 1 \<and>
   files (snd (process_files oor_x86 (CONFIG ''/data'') example_src
          [''esp_b.nc'', ''esp_a.nc''] (0, example_world))) =
     [''/data/converted_sp2_files/esp_a.sp2'' \<mapsto> sp2_text oor_x86 (CONFIG ''/data'') example_ds]"
proof -
  have s: "example_src (path_join (input_dir (CONFIG ''/data'')) ''esp_b.nc'') = Inr example_bad"
    by (simp add: example_paths example_src_def)
  note c6 = C6_missing_field_is_skipped [where src = example_src and cfg = "CONFIG ''/data''"
      and b = "''esp_b.nc''" and oor = oor_x86 and xs = "[]" and ys = "[''esp_a.nc'']"
      and c = 0 and w = example_world, OF s example_bad_missing]
  have n: "\<not> path_exists
      (path_join (output_dir (CONFIG ''/data'')) (fst (splitext ''esp_b.nc'') @ ''.sp2''))
      (snd (process_files oor_x86 (CONFIG ''/data'') example_src [] (0, example_world)))"
    by (simp add: example_paths process_files_def path_exists_def example_world_def)
  from c6 [THEN conjunct1] n
  have l: "(ERROR, ''Missing required variable: direction'') \<in>
      set (log (snd (process_files oor_x86 (CONFIG ''/data'') example_src
                      [''esp_b.nc'', ''esp_a.nc''] (0, example_world))))"
    by (auto simp: example_validate_bad)
  from c6 [THEN conjunct2] have
    "fst (process_files oor_x86 (CONFIG ''/data'') example_src
          [''esp_b.nc'', ''esp_a.nc''] (0, example_world)) = 1"
    "files (snd (process_files oor_x86 (CONFIG ''/data'') example_src
          [''esp_b.nc'', ''esp_a.nc''] (0, example_world))) =
     [''/data/converted_sp2_files/esp_a.sp2'' \<mapsto> sp2_text oor_x86 (CONFIG ''/data'') example_ds]"
    by (simp_all add: example_process_a)
  with s example_bad_missing example_validate_bad l show ?thesis
    by (intro conjI)
qed

end
